theory Spec2Isabelle
  imports Complex_Main
begin

section \<open>Data model of the game hook (src/app/page.tsx)\<close>

text \<open>
  The hook \<open>useGame\<close> of \<^verbatim>\<open>src/app/page.tsx\<close> keeps the simulation in mutable cells and
  advances it in the animation-frame callback \<open>step\<close>. Here the cells are the fields of one
  record that every operation takes and returns, and what an operation reads from outside
  (timestamps, the canvas size, \<open>Math.random\<close>) is an argument.

  JavaScript numbers are modelled as real numbers: rounding and the infinities of IEEE
  doubles are outside the model, and so is NaN, except in the input vector of a frame, where
  the code can produce it from the pressed keys alone. Drawing on the canvas changes no
  cell and is left out.
\<close>

record Vec2 =
  x :: real
  y :: real

record Collectible =
  id_num :: nat
  position :: Vec2
  taken :: bool
  spin :: real

record UiState =
  time :: real
  collected :: nat
  distance :: real
  pace :: real

definition SPEED :: real where "SPEED = 280"
definition FOLLOW_DELAY :: nat where "FOLLOW_DELAY = 34"
definition TRAIL_LIMIT :: nat where "TRAIL_LIMIT = 180"
definition EDGE_PADDING :: real where "EDGE_PADDING = 80"
definition UI_INTERVAL :: real where "UI_INTERVAL = 120"

text \<open>
  \<open>KEY_DIRECTIONS\<close>, lines 27 to 36, is a plain object, and the code reads it with
  \<open>KEY_DIRECTIONS[key]\<close>. Such a lookup yields the direction of one of the eight keys of
  the literal; for a name that the object inherits from \<open>Object.prototype\<close> it yields that
  member, a function or an object, which is truthy and has neither \<open>x\<close> nor \<open>y\<close>; and for
  any other string it yields \<open>undefined\<close>.
\<close>

datatype property = Undefined | Direction Vec2 | Inherited

definition Object_prototype :: "string list" where
  "Object_prototype =
     [''constructor'', ''__defineGetter__'', ''__defineSetter__'', ''hasOwnProperty'',
      ''__lookupGetter__'', ''__lookupSetter__'', ''isPrototypeOf'', ''propertyIsEnumerable'',
      ''toString'', ''valueOf'', ''__proto__'', ''toLocaleString'']"

definition KEY_DIRECTIONS :: "string \<Rightarrow> property" where
  "KEY_DIRECTIONS key =
     (case map_of
        [(''arrowup'', \<lparr>x = 0, y = -1\<rparr>),
         (''w'', \<lparr>x = 0, y = -1\<rparr>),
         (''arrowdown'', \<lparr>x = 0, y = 1\<rparr>),
         (''s'', \<lparr>x = 0, y = 1\<rparr>),
         (''arrowleft'', \<lparr>x = -1, y = 0\<rparr>),
         (''a'', \<lparr>x = -1, y = 0\<rparr>),
         (''arrowright'', \<lparr>x = 1, y = 0\<rparr>),
         (''d'', \<lparr>x = 1, y = 0\<rparr>)] key of
        Some direction \<Rightarrow> Direction direction
      | None \<Rightarrow> if key \<in> set Object_prototype then Inherited else Undefined)"

text \<open>
  Adding the \<open>x\<close> and \<open>y\<close> of an inherited member, both \<open>undefined\<close>, to the input vector
  makes both of its components NaN, and NaN they stay whatever is added later. This is the
  one place where a NaN is part of the model: the input vector of a frame is either a vector
  of numbers or the vector of two NaN.
\<close>

datatype NumVec = Numbers Vec2 | NaNs

text \<open>The cells of \<open>useGame\<close>. \<open>pressedKeysRef\<close> is a JavaScript Set: its members in
  insertion order, without duplicates. \<open>lastTimestamp\<close> is \<open>number | null\<close>.\<close>

record game =
  lastTimestamp :: "real option"
  aksRef :: Vec2
  oliveRef :: Vec2
  aksDirectionRef :: Vec2
  oliveDirectionRef :: Vec2
  pressedKeysRef :: "string list"
  trailRef :: "Vec2 list"
  collectiblesRef :: "Collectible list"
  collectedRef :: nat
  timeRef :: real
  lastUiUpdate :: real
  uiState :: UiState
  ready :: bool

text \<open>What one animation frame reads from outside: the callback's timestamp, the value of
  \<open>performance.now()\<close>, the canvas's client size, and the successive results of
  \<open>Math.random()\<close> should the frame draw any (\<open>random k\<close> is the k-th draw).\<close>

record frame =
  timestamp :: real
  now :: real
  clientWidth :: real
  clientHeight :: real
  random :: "nat \<Rightarrow> real"

datatype event =
  KeyDown string
| KeyUp string
| Resize real real "nat \<Rightarrow> real"
| Frame frame

section \<open>Vector helpers\<close>

text \<open>\<open>clamp\<close>, \<open>length\<close> (\<open>Math.hypot\<close>), \<open>normalize\<close> and \<open>interpolate\<close>, lines 38 to 52.
  \<open>!len\<close> holds of the number 0 and of NaN, which is what \<open>Math.hypot\<close> gives for the
  vector of two NaN: \<open>normalize\<close> returns the zero vector for both.\<close>

definition clamp :: "real \<Rightarrow> real \<Rightarrow> real \<Rightarrow> real" where
  "clamp val lo hi = min (max val lo) hi"

definition length_vec :: "Vec2 \<Rightarrow> real" where
  "length_vec v = sqrt ((x v)\<^sup>2 + (y v)\<^sup>2)"

definition normalize_vec :: "NumVec \<Rightarrow> Vec2" where
  "normalize_vec vector =
     (case vector of
        NaNs \<Rightarrow> \<lparr>x = 0, y = 0\<rparr>
      | Numbers v \<Rightarrow>
          let len = length_vec v
          in if len = 0 then \<lparr>x = 0, y = 0\<rparr> else \<lparr>x = x v / len, y = y v / len\<rparr>)"

definition interpolate :: "Vec2 \<Rightarrow> Vec2 \<Rightarrow> real \<Rightarrow> Vec2" where
  "interpolate from to factor =
     \<lparr>x = x from + (x to - x from) * factor, y = y from + (y to - y from) * factor\<rparr>"

section \<open>Collectibles\<close>

text \<open>\<open>generateCollectibles\<close>, lines 54 to 66. \<open>Array.from({length: 6}, ...)\<close> builds the
  items in index order; each item draws three random numbers, for x, y and spin, so item
  \<open>index\<close> takes the draws \<open>3 * index\<close>, \<open>3 * index + 1\<close> and \<open>3 * index + 2\<close>.\<close>

definition generateCollectibles ::
  "real \<Rightarrow> real \<Rightarrow> (nat \<Rightarrow> real) \<Rightarrow> Collectible list" where
  "generateCollectibles width height rnd =
     (let count = 6; margin = EDGE_PADDING + 30
      in map (\<lambda>index.
            \<lparr>id_num = index,
             position = \<lparr>x = margin + rnd (3 * index) * (width - margin * 2),
                         y = margin + rnd (3 * index + 1) * (height - margin * 2)\<rparr>,
             taken = False,
             spin = rnd (3 * index + 2) * pi * 2\<rparr>) [0..<count])"

text \<open>The \<open>forEach\<close> over the collectibles in \<open>step\<close>, lines 423 to 434. Its body mutates
  the item and the counter \<open>collectedRef\<close>; \<open>checkCollectible\<close> takes both and returns both.
  An item already taken is skipped; for the others the spin advances whether or not the item
  is picked up.\<close>

definition distanceToAks :: "Vec2 \<Rightarrow> Collectible \<Rightarrow> real" where
  "distanceToAks aks c =
     length_vec \<lparr>x = x (position c) - x aks, y = y (position c) - y aks\<rparr>"

definition checkCollectible ::
  "Vec2 \<Rightarrow> real \<Rightarrow> Collectible \<Rightarrow> nat \<Rightarrow> Collectible \<times> nat" where
  "checkCollectible aks delta c n =
     (if taken c then (c, n)
      else
        let c1 = (if distanceToAks aks c < 30 then c\<lparr>taken := True\<rparr> else c);
            n1 = (if distanceToAks aks c < 30 then n + 1 else n)
        in (c1\<lparr>spin := spin c1 + delta * 1.6\<rparr>, n1))"

fun forEachCollectible ::
  "Vec2 \<Rightarrow> real \<Rightarrow> Collectible list \<Rightarrow> nat \<Rightarrow> Collectible list \<times> nat" where
  "forEachCollectible aks delta [] n = ([], n)"
| "forEachCollectible aks delta (c # cs) n =
     (let (c', n') = checkCollectible aks delta c n;
          (cs', n'') = forEachCollectible aks delta cs n'
      in (c' # cs', n''))"

section \<open>Reset\<close>

text \<open>The state of the cells as \<open>useRef\<close> and \<open>useState\<close> create them.\<close>

definition initialGame :: game where
  "initialGame =
     \<lparr>lastTimestamp = None,
      aksRef = \<lparr>x = 0, y = 0\<rparr>,
      oliveRef = \<lparr>x = 0, y = 0\<rparr>,
      aksDirectionRef = \<lparr>x = 1, y = 0\<rparr>,
      oliveDirectionRef = \<lparr>x = 1, y = 0\<rparr>,
      pressedKeysRef = [],
      trailRef = [],
      collectiblesRef = [],
      collectedRef = 0,
      timeRef = 0,
      lastUiUpdate = 0,
      uiState = \<lparr>time = 0, collected = 0, distance = 0, pace = 0\<rparr>,
      ready = False\<rparr>"

text \<open>\<open>initializePositions\<close>, lines 158 to 168, with the canvas size it reads and the
  random draws of \<open>generateCollectibles\<close> as arguments. The resize observer's callback, lines
  173 to 176, runs \<open>setup\<close>, which touches the canvas only, and then this.\<close>

definition initializePositions :: "real \<Rightarrow> real \<Rightarrow> (nat \<Rightarrow> real) \<Rightarrow> game \<Rightarrow> game" where
  "initializePositions width height rnd s =
     s\<lparr>aksRef := \<lparr>x = width * 0.65, y = height * 0.55\<rparr>,
       oliveRef := \<lparr>x = width * 0.5, y = height * 0.6\<rparr>,
       trailRef := [\<lparr>x = width * 0.5, y = height * 0.6\<rparr>],
       collectiblesRef := generateCollectibles width height rnd,
       collectedRef := 0,
       timeRef := 0,
       lastTimestamp := None,
       ready := True\<rparr>"

section \<open>Keyboard\<close>

text \<open>The key handlers, lines 179 to 193. \<open>toLowerCase\<close> is modelled on the ASCII
  letters; other characters are left as they are. The test \<open>if (KEY_DIRECTIONS[key])\<close>
  passes for every lookup that is not \<open>undefined\<close>. \<open>Set.add\<close> appends a key that is not
  yet a member, \<open>Set.delete\<close> removes it.\<close>

definition toLowerCase :: "string \<Rightarrow> string" where
  "toLowerCase =
     map (\<lambda>c. let n = (of_char c :: nat) in if 65 \<le> n \<and> n \<le> 90 then char_of (n + 32) else c)"

definition handleKeyDown :: "string \<Rightarrow> game \<Rightarrow> game" where
  "handleKeyDown rawKey s =
     (let key = toLowerCase rawKey
      in if KEY_DIRECTIONS key = Undefined then s
         else s\<lparr>pressedKeysRef :=
                  (if key \<in> set (pressedKeysRef s) then pressedKeysRef s
                   else pressedKeysRef s @ [key])\<rparr>)"

definition handleKeyUp :: "string \<Rightarrow> game \<Rightarrow> game" where
  "handleKeyUp rawKey s =
     (let key = toLowerCase rawKey
      in if KEY_DIRECTIONS key = Undefined then s
         else s\<lparr>pressedKeysRef := removeAll key (pressedKeysRef s)\<rparr>)"

section \<open>The frame step\<close>

text \<open>The parts of \<open>step\<close>, lines 357 to 449, in the order of the source, and then \<open>step\<close>
  itself. First the \<open>forEach\<close> over the pressed keys that sums the directions, lines 368
  to 377: \<open>if (direction)\<close> passes for a direction and for an inherited member, and the sum
  with the members' \<open>undefined\<close> components is NaN.\<close>

fun addDirection :: "NumVec \<Rightarrow> property \<Rightarrow> NumVec" where
  "addDirection inputVector Undefined = inputVector"
| "addDirection (Numbers v) (Direction direction) =
     Numbers \<lparr>x = x v + x direction, y = y v + y direction\<rparr>"
| "addDirection NaNs (Direction direction) = NaNs"
| "addDirection inputVector Inherited = NaNs"

definition sumDirections :: "string list \<Rightarrow> NumVec" where
  "sumDirections keys =
     fold (\<lambda>key inputVector. addDirection inputVector (KEY_DIRECTIONS key))
       keys (Numbers \<lparr>x = 0, y = 0\<rparr>)"

text \<open>The test \<open>normalizedInput.x || normalizedInput.y\<close> and the leader's move under it,
  lines 380 to 394.\<close>

definition truthyVec :: "Vec2 \<Rightarrow> bool" where
  "truthyVec v = (x v \<noteq> 0 \<or> y v \<noteq> 0)"

definition moveAks :: "Vec2 \<Rightarrow> Vec2 \<Rightarrow> real \<Rightarrow> real \<Rightarrow> real \<Rightarrow> Vec2" where
  "moveAks aks normalizedInput delta width height =
     (if truthyVec normalizedInput then
        \<lparr>x = clamp (x aks + x normalizedInput * SPEED * delta)
               EDGE_PADDING (width - EDGE_PADDING),
         y = clamp (y aks + y normalizedInput * SPEED * delta)
               EDGE_PADDING (height - EDGE_PADDING)\<rparr>
      else aks)"

text \<open>Lines 396 to 399: \<open>push\<close>, then \<open>shift\<close> when the trail is longer than the limit.\<close>

definition pushTrail :: "Vec2 list \<Rightarrow> Vec2 \<Rightarrow> Vec2 list" where
  "pushTrail trail p =
     (let pushed = trail @ [p]
      in if length pushed > TRAIL_LIMIT then tl pushed else pushed)"

text \<open>Lines 401 to 404, on the trail as it is after the push.\<close>

definition targetIndex :: "Vec2 list \<Rightarrow> int" where
  "targetIndex trail = max 0 (int (length trail) - 1 - int FOLLOW_DELAY)"

text \<open>\<open>trail[targetIndex] ?? aksRef.current\<close>: an index outside the array reads
  \<open>undefined\<close>, and the leader's position is taken instead.\<close>

definition followTarget :: "Vec2 list \<Rightarrow> Vec2 \<Rightarrow> Vec2" where
  "followTarget trail aks =
     (let i = targetIndex trail
      in if 0 \<le> i \<and> nat i < length trail then trail ! nat i else aks)"

text \<open>The follower's move, lines 411 to 417.\<close>

definition moveOlive :: "Vec2 \<Rightarrow> Vec2 \<Rightarrow> real \<Rightarrow> real \<Rightarrow> real \<Rightarrow> Vec2" where
  "moveOlive olive target delta width height =
     (let stepFactor = min 1 (delta * 6);
          nextOlive = interpolate olive target stepFactor
      in \<lparr>x = clamp (x nextOlive) EDGE_PADDING (width - EDGE_PADDING),
          y = clamp (y nextOlive) EDGE_PADDING (height - EDGE_PADDING)\<rparr>)"

text \<open>\<open>updateUiState\<close>, lines 200 to 213, with the value of \<open>performance.now()\<close> as its
  first argument: nothing happens within \<open>UI_INTERVAL\<close> of the last publication; otherwise
  the metrics are published with \<open>setUiState\<close>. \<open>publishes\<close> is the negation of its test.\<close>

definition publishes :: "real \<Rightarrow> game \<Rightarrow> bool" where
  "publishes t s = (\<not> t - lastUiUpdate s < UI_INTERVAL)"

definition updateUiState :: "real \<Rightarrow> real \<Rightarrow> game \<Rightarrow> game" where
  "updateUiState t gap s =
     (if t - lastUiUpdate s < UI_INTERVAL then s
      else s\<lparr>lastUiUpdate := t,
             uiState :=
               \<lparr>time = timeRef s,
                collected = collectedRef s,
                distance = gap,
                pace = (if collectedRef s = 0 then 0
                        else timeRef s / real (collectedRef s))\<rparr>\<rparr>)"

text \<open>Lines 358 to 361: with no previous timestamp the frame's own is taken, and the
  delta is 0.\<close>

definition frameDelta :: "frame \<Rightarrow> game \<Rightarrow> real" where
  "frameDelta f s =
     (let previous = (case lastTimestamp s of None \<Rightarrow> timestamp f | Some t \<Rightarrow> t)
      in (timestamp f - previous) / 1000)"

definition step :: "frame \<Rightarrow> game \<Rightarrow> game" where
  "step f s =
     (let delta = frameDelta f s;
          aks = aksRef s;
          olive = oliveRef s;
          width = clientWidth f;
          height = clientHeight f;
          normalizedInput = normalize_vec (sumDirections (pressedKeysRef s));
          aks' = moveAks aks normalizedInput delta width height;
          aksDirection' =
            (if truthyVec normalizedInput then normalizedInput else aksDirectionRef s);
          trail' = pushTrail (trailRef s) aks';
          target = followTarget trail' aks';
          followVector = \<lparr>x = x target - x olive, y = y target - y olive\<rparr>;
          followDistance = length_vec followVector;
          olive' = moveOlive olive target delta width height;
          oliveDirection' =
            (if followDistance > 1 then normalize_vec (Numbers followVector)
             else oliveDirectionRef s);
          (checked, collected') =
            forEachCollectible aks' delta (collectiblesRef s) (collectedRef s);
          collectibles' =
            (if list_all taken checked then generateCollectibles width height (random f)
             else checked);
          pairDistance = length_vec \<lparr>x = x aks' - x olive', y = y aks' - y olive'\<rparr>
      in updateUiState (now f) pairDistance
           (s\<lparr>lastTimestamp := Some (timestamp f),
              aksRef := aks',
              aksDirectionRef := aksDirection',
              trailRef := trail',
              oliveRef := olive',
              oliveDirectionRef := oliveDirection',
              collectiblesRef := collectibles',
              collectedRef := collected',
              timeRef := timeRef s + delta\<rparr>))"

section \<open>Runs of events\<close>

text \<open>The callbacks run one at a time on the event loop: a run is a list of key events,
  resize notifications (with the new canvas size and the draws of the reset) and frames.\<close>

fun exec :: "event \<Rightarrow> game \<Rightarrow> game" where
  "exec (KeyDown k) s = handleKeyDown k s"
| "exec (KeyUp k) s = handleKeyUp k s"
| "exec (Resize w h rnd) s = initializePositions w h rnd s"
| "exec (Frame f) s = step f s"

fun run :: "event list \<Rightarrow> game \<Rightarrow> game" where
  "run [] s = s"
| "run (e # es) s = run es (exec e s)"

text \<open>Frame events, as opposed to key and resize events.\<close>

fun isFrame :: "event \<Rightarrow> bool" where
  "isFrame (Frame f) = True"
| "isFrame e = False"

text \<open>Observers of a run: which events are resizes, and the leader's position after each
  frame of the run, oldest first.\<close>

fun isResize :: "event \<Rightarrow> bool" where
  "isResize (Resize w h rnd) = True"
| "isResize e = False"

fun leaderPositions :: "event list \<Rightarrow> game \<Rightarrow> Vec2 list" where
  "leaderPositions [] s = []"
| "leaderPositions (e # es) s =
     (if isFrame e then [aksRef (exec e s)] else []) @ leaderPositions es (exec e s)"

text \<open>The wall-clock times at which the frames of a run publish the metrics: a frame
  publishes exactly when \<open>updateUiState\<close> passes its interval test.\<close>

fun published :: "event \<Rightarrow> game \<Rightarrow> real list" where
  "published (Frame f) s = (if publishes (now f) s then [now f] else [])"
| "published e s = []"

fun publications :: "event list \<Rightarrow> game \<Rightarrow> real list" where
  "publications [] s = []"
| "publications (e # es) s = published e s @ publications es (exec e s)"

section \<open>Example states and frames\<close>

text \<open>Concrete inputs at which the properties below are evaluated. A random source that
  always draws 1/2; the state after mounting on a 1000 by 1000 and on a 200 by 200 canvas;
  a frame on each, and one on a canvas 100 wide; a frame at a given time.\<close>

definition halfDraws :: "nat \<Rightarrow> real" where
  "halfDraws k = 1 / 2"

definition large_start :: game where
  "large_start = initializePositions 1000 1000 halfDraws initialGame"

definition small_start :: game where
  "small_start = initializePositions 200 200 halfDraws initialGame"

definition large_frame :: frame where
  "large_frame =
     \<lparr>timestamp = 16, now = 130, clientWidth = 1000, clientHeight = 1000, random = halfDraws\<rparr>"

definition small_frame :: frame where
  "small_frame =
     \<lparr>timestamp = 16, now = 130, clientWidth = 200, clientHeight = 200, random = halfDraws\<rparr>"

definition narrow_frame :: frame where
  "narrow_frame =
     \<lparr>timestamp = 16, now = 130, clientWidth = 100, clientHeight = 100, random = halfDraws\<rparr>"

definition frame_at :: "real \<Rightarrow> frame" where
  "frame_at t =
     \<lparr>timestamp = t, now = t, clientWidth = 1000, clientHeight = 1000, random = halfDraws\<rparr>"

text \<open>A state with ten seconds and two stars on the clock; the large state with the key d
  held and a previous frame at time 0; the small state with the key a held.\<close>

definition paced_game :: game where
  "paced_game = initialGame\<lparr>timeRef := 10, collectedRef := 2\<rparr>"

definition right_held :: game where
  "right_held = large_start\<lparr>pressedKeysRef := [''d''], lastTimestamp := Some 0\<rparr>"

definition left_held_small :: game where
  "left_held_small = small_start\<lparr>pressedKeysRef := [''a'']\<rparr>"


text \<open>Draws that put every collectible of a 1000 by 1000 canvas at (650, 550), where the
  leader starts, and the state after mounting with them; two single collectibles, 10 and
  about 158 away from that point, and the large state holding just these two.\<close>

definition nearDraws :: "nat \<Rightarrow> real" where
  "nearDraws k = (if k mod 3 = 0 then 9 / 13 else 22 / 39)"

definition crowded_start :: game where
  "crowded_start = initializePositions 1000 1000 nearDraws initialGame"

definition near_star :: Collectible where
  "near_star = \<lparr>id_num = 0, position = \<lparr>x = 650, y = 560\<rparr>, taken = False, spin = 0\<rparr>"

definition far_star :: Collectible where
  "far_star = \<lparr>id_num = 1, position = \<lparr>x = 500, y = 500\<rparr>, taken = False, spin = 0\<rparr>"

definition star_game :: game where
  "star_game = large_start\<lparr>collectiblesRef := [near_star, far_star]\<rparr>"

section \<open>The fields after one frame\<close>

text \<open>Each cell after \<open>step\<close>, in terms of the parts above.\<close>

lemma updateUiState_fields:
  "lastTimestamp (updateUiState t g s) = lastTimestamp s"
  "aksRef (updateUiState t g s) = aksRef s"
  "oliveRef (updateUiState t g s) = oliveRef s"
  "aksDirectionRef (updateUiState t g s) = aksDirectionRef s"
  "oliveDirectionRef (updateUiState t g s) = oliveDirectionRef s"
  "pressedKeysRef (updateUiState t g s) = pressedKeysRef s"
  "trailRef (updateUiState t g s) = trailRef s"
  "collectiblesRef (updateUiState t g s) = collectiblesRef s"
  "collectedRef (updateUiState t g s) = collectedRef s"
  "timeRef (updateUiState t g s) = timeRef s"
  "ready (updateUiState t g s) = ready s"
  by (simp_all add: updateUiState_def)

lemma step_aksRef:
  "aksRef (step f s) =
     moveAks (aksRef s) (normalize_vec (sumDirections (pressedKeysRef s)))
       (frameDelta f s) (clientWidth f) (clientHeight f)"
  by (simp add: step_def Let_def updateUiState_fields split: prod.split)

lemma step_aksDirectionRef:
  "aksDirectionRef (step f s) =
     (if truthyVec (normalize_vec (sumDirections (pressedKeysRef s)))
      then normalize_vec (sumDirections (pressedKeysRef s)) else aksDirectionRef s)"
  by (simp add: step_def Let_def updateUiState_fields split: prod.split)

lemma step_trailRef:
  "trailRef (step f s) = pushTrail (trailRef s) (aksRef (step f s))"
  by (simp add: step_aksRef) (simp add: step_def Let_def updateUiState_fields split: prod.split)

lemma step_oliveRef:
  "oliveRef (step f s) =
     moveOlive (oliveRef s) (followTarget (trailRef (step f s)) (aksRef (step f s)))
       (frameDelta f s) (clientWidth f) (clientHeight f)"
  by (simp add: step_aksRef step_trailRef) (simp add: step_def Let_def updateUiState_fields split: prod.split)

lemma step_pressedKeysRef: "pressedKeysRef (step f s) = pressedKeysRef s"
  by (simp add: step_def Let_def updateUiState_fields split: prod.split)

lemma step_lastTimestamp: "lastTimestamp (step f s) = Some (timestamp f)"
  by (simp add: step_def Let_def updateUiState_fields split: prod.split)

lemma step_timeRef: "timeRef (step f s) = timeRef s + frameDelta f s"
  by (simp add: step_def Let_def updateUiState_fields split: prod.split)

lemma step_collectedRef:
  "collectedRef (step f s) =
     snd (forEachCollectible (aksRef (step f s)) (frameDelta f s) (collectiblesRef s) (collectedRef s))"
  by (simp add: step_aksRef) (simp add: step_def Let_def updateUiState_fields split: prod.split)

lemma step_collectiblesRef:
  "collectiblesRef (step f s) =
     (let checked = fst (forEachCollectible (aksRef (step f s)) (frameDelta f s)
                          (collectiblesRef s) (collectedRef s))
      in if list_all taken checked
         then generateCollectibles (clientWidth f) (clientHeight f) (random f)
         else checked)"
  by (simp add: step_aksRef) (simp add: step_def Let_def updateUiState_fields split: prod.split)

lemma step_lastUiUpdate:
  "lastUiUpdate (step f s) = (if publishes (now f) s then now f else lastUiUpdate s)"
  by (simp add: step_def Let_def updateUiState_def publishes_def split: prod.split)

lemma step_uiState:
  "uiState (step f s) =
     (if publishes (now f) s then
        \<lparr>time = timeRef (step f s),
         collected = collectedRef (step f s),
         distance = length_vec \<lparr>x = x (aksRef (step f s)) - x (oliveRef (step f s)),
                                y = y (aksRef (step f s)) - y (oliveRef (step f s))\<rparr>,
         pace = (if collectedRef (step f s) = 0 then 0
                 else timeRef (step f s) / real (collectedRef (step f s)))\<rparr>
      else uiState s)"
  by (simp add: step_aksRef step_trailRef step_oliveRef step_timeRef step_collectedRef)
     (simp add: step_def Let_def updateUiState_def publishes_def split: prod.split)

section \<open>Session metrics: pace\<close>

text \<open>
  C2 (amended). Whenever \<open>updateUiState\<close> publishes, and so whenever a frame publishes, the
  published pace is the number 0 when nothing has been collected yet, and the elapsed time
  divided by the collected count otherwise, both as they are at the end of the frame. Zero
  itself is the marker of "no pace yet": the page prints "--" for a pace of 0.
\<close>

theorem pace_published:
  "(publishes t s \<longrightarrow>
      pace (uiState (updateUiState t g s)) =
        (if collectedRef s = 0 then 0 else timeRef s / real (collectedRef s))) \<and>
   (publishes (now f) s \<longrightarrow>
      pace (uiState (step f s)) =
        (if collectedRef (step f s) = 0 then 0
         else timeRef (step f s) / real (collectedRef (step f s))))"
  by (simp add: step_uiState) (simp add: updateUiState_def publishes_def)

theorem pace_published_witness:
  "publishes 120 paced_game \<and> timeRef paced_game = 10 \<and> collectedRef paced_game = 2 \<and>
   pace (uiState (updateUiState 120 0 paced_game)) = 5 \<and>
   publishes (now large_frame) paced_game \<and>
   timeRef (step large_frame paced_game) = 10 \<and>
   collectedRef (step large_frame paced_game) = 2 \<and>
   pace (uiState (step large_frame paced_game)) = 5"
proof -
  have fields: "timeRef paced_game = 10" "collectedRef paced_game = 2"
    "lastUiUpdate paced_game = 0" "lastTimestamp paced_game = None"
    "collectiblesRef paced_game = []"
    by (simp_all add: paced_game_def initialGame_def)
  have after: "timeRef (step large_frame paced_game) = 10"
    "collectedRef (step large_frame paced_game) = 2"
    by (simp_all add: step_timeRef step_collectedRef frameDelta_def fields)
  have "now large_frame = 130" by (simp add: large_frame_def)
  with pace_published [of 120 paced_game 0 large_frame] show ?thesis
    by (simp add: publishes_def UI_INTERVAL_def fields after)
qed

text \<open>C2 as stated asks for a marker different from the number zero; the code publishes 0.\<close>

theorem pace_zero_counterexample:
  "collectedRef initialGame = 0 \<and> publishes 120 initialGame \<and>
   pace (uiState (updateUiState 120 0 initialGame)) = 0"
  by (simp add: publishes_def updateUiState_def initialGame_def UI_INTERVAL_def)

section \<open>Facts about the example states\<close>

lemma sumDirections_Nil: "sumDirections [] = Numbers \<lparr>x = 0, y = 0\<rparr>"
  by (simp add: sumDirections_def)

lemma normalize_vec_zero: "normalize_vec (Numbers \<lparr>x = 0, y = 0\<rparr>) = \<lparr>x = 0, y = 0\<rparr>"
  by (simp add: normalize_vec_def length_vec_def)

lemma large_start_fields:
  "aksRef large_start = \<lparr>x = 650, y = 550\<rparr>"
  "oliveRef large_start = \<lparr>x = 500, y = 600\<rparr>"
  "trailRef large_start = [\<lparr>x = 500, y = 600\<rparr>]"
  "pressedKeysRef large_start = []"
  "collectedRef large_start = 0"
  "lastTimestamp large_start = None"
  by (simp_all add: large_start_def initializePositions_def initialGame_def)

lemma aksRef_large_step: "aksRef (step large_frame large_start) = \<lparr>x = 650, y = 550\<rparr>"
  by (simp add: step_aksRef large_start_fields sumDirections_Nil normalize_vec_zero
      moveAks_def truthyVec_def)

lemma trailRef_large_step:
  "trailRef (step large_frame large_start) = [\<lparr>x = 500, y = 600\<rparr>, \<lparr>x = 650, y = 550\<rparr>]"
  by (simp add: step_trailRef aksRef_large_step large_start_fields pushTrail_def TRAIL_LIMIT_def)

section \<open>Leader: movement and bounds\<close>

lemma clamp_bounds: "lo \<le> hi \<Longrightarrow> lo \<le> clamp v lo hi \<and> clamp v lo hi \<le> hi"
  by (simp add: clamp_def)

lemma step_idle:
  assumes "normalize_vec (sumDirections (pressedKeysRef s)) = \<lparr>x = 0, y = 0\<rparr>"
  shows "aksRef (step f s) = aksRef s" and "aksDirectionRef (step f s) = aksDirectionRef s"
  using assms by (simp_all add: step_aksRef step_aksDirectionRef moveAks_def truthyVec_def)

text \<open>
  C10. On a frame whose normalized input vector is the zero vector the leader's position and
  facing are exactly as before: the clamp is not applied. So over any run of frames with no
  effective input the leader stays where it is, also outside the padded rectangle, as after
  mounting on a 200 by 200 canvas, where it starts at x = 130 beyond 200 - 80.
\<close>

theorem idle_leader_unchanged:
  "list_all isFrame es \<Longrightarrow>
   normalize_vec (sumDirections (pressedKeysRef s)) = \<lparr>x = 0, y = 0\<rparr> \<Longrightarrow>
   aksRef (run es s) = aksRef s \<and> aksDirectionRef (run es s) = aksDirectionRef s"
proof (induction es arbitrary: s)
  case Nil
  show ?case by simp
next
  case (Cons e es)
  from Cons.prems(1) obtain f where e: "e = Frame f"
    by (cases e) simp_all
  have keys: "pressedKeysRef (step f s) = pressedKeysRef s"
    by (rule step_pressedKeysRef)
  have "aksRef (run es (step f s)) = aksRef (step f s) \<and>
        aksDirectionRef (run es (step f s)) = aksDirectionRef (step f s)"
    using Cons.prems by (intro Cons.IH) (simp_all add: keys)
  with Cons.prems(2) show ?case
    by (simp add: e step_idle)
qed

lemma small_start_fields:
  "aksRef small_start = \<lparr>x = 130, y = 110\<rparr>"
  "oliveRef small_start = \<lparr>x = 100, y = 120\<rparr>"
  "trailRef small_start = [\<lparr>x = 100, y = 120\<rparr>]"
  "pressedKeysRef small_start = []"
  "collectedRef small_start = 0"
  "lastTimestamp small_start = None"
  by (simp_all add: small_start_def initializePositions_def initialGame_def)

theorem idle_leader_unchanged_witness:
  "list_all isFrame [Frame small_frame, Frame large_frame] \<and>
   normalize_vec (sumDirections (pressedKeysRef small_start)) = \<lparr>x = 0, y = 0\<rparr> \<and>
   aksRef (run [Frame small_frame, Frame large_frame] small_start) = \<lparr>x = 130, y = 110\<rparr> \<and>
   \<not> x (aksRef (run [Frame small_frame, Frame large_frame] small_start))
       \<le> clientWidth small_frame - EDGE_PADDING"
  using idle_leader_unchanged [of "[Frame small_frame, Frame large_frame]" small_start]
  by (simp add: small_start_fields sumDirections_Nil normalize_vec_zero small_frame_def
      EDGE_PADDING_def)

text \<open>
  C3 (amended). On a frame whose normalized input is nonzero the leader's position becomes
  \<open>position + normalizedInput * 280 * delta\<close> clamped per axis, and then lies within
  \<open>[EDGE_PADDING, width - EDGE_PADDING]\<close> on an axis whose dimension is at least twice the
  padding, whatever the elapsed time. On a frame whose normalized input is zero the position
  is left as it was, clamped or not.
\<close>

theorem leader_in_bounds_when_moving:
  "(truthyVec (normalize_vec (sumDirections (pressedKeysRef s))) \<longrightarrow>
      aksRef (step f s) =
        \<lparr>x = clamp (x (aksRef s)
                    + x (normalize_vec (sumDirections (pressedKeysRef s))) * 280 * frameDelta f s)
               EDGE_PADDING (clientWidth f - EDGE_PADDING),
         y = clamp (y (aksRef s)
                    + y (normalize_vec (sumDirections (pressedKeysRef s))) * 280 * frameDelta f s)
               EDGE_PADDING (clientHeight f - EDGE_PADDING)\<rparr> \<and>
      (2 * EDGE_PADDING \<le> clientWidth f \<longrightarrow>
         EDGE_PADDING \<le> x (aksRef (step f s)) \<and>
         x (aksRef (step f s)) \<le> clientWidth f - EDGE_PADDING) \<and>
      (2 * EDGE_PADDING \<le> clientHeight f \<longrightarrow>
         EDGE_PADDING \<le> y (aksRef (step f s)) \<and>
         y (aksRef (step f s)) \<le> clientHeight f - EDGE_PADDING)) \<and>
   (\<not> truthyVec (normalize_vec (sumDirections (pressedKeysRef s))) \<longrightarrow>
      aksRef (step f s) = aksRef s)"
  by (simp add: step_aksRef moveAks_def SPEED_def clamp_bounds)

lemma sumDirections_d: "sumDirections [''d''] = Numbers \<lparr>x = 1, y = 0\<rparr>"
  by (simp add: sumDirections_def KEY_DIRECTIONS_def)

lemma normalize_vec_right: "normalize_vec (Numbers \<lparr>x = 1, y = 0\<rparr>) = \<lparr>x = 1, y = 0\<rparr>"
  by (simp add: normalize_vec_def length_vec_def)

lemma right_held_fields:
  "aksRef right_held = \<lparr>x = 650, y = 550\<rparr>"
  "pressedKeysRef right_held = [''d'']"
  "lastTimestamp right_held = Some 0"
  by (simp_all add: right_held_def large_start_def initializePositions_def)

theorem leader_in_bounds_when_moving_witness:
  "truthyVec (normalize_vec (sumDirections (pressedKeysRef right_held))) \<and>
   2 * EDGE_PADDING \<le> clientWidth large_frame \<and> 2 * EDGE_PADDING \<le> clientHeight large_frame \<and>
   aksRef (step large_frame right_held) = \<lparr>x = 654.48, y = 550\<rparr> \<and>
   EDGE_PADDING \<le> x (aksRef (step large_frame right_held)) \<and>
   x (aksRef (step large_frame right_held)) \<le> clientWidth large_frame - EDGE_PADDING \<and>
   \<not> truthyVec (normalize_vec (sumDirections (pressedKeysRef large_start))) \<and>
   aksRef (step large_frame large_start) = aksRef large_start"
  using leader_in_bounds_when_moving [of right_held large_frame]
    leader_in_bounds_when_moving [of large_start large_frame]
  by (simp add: right_held_fields large_start_fields sumDirections_d normalize_vec_right
      sumDirections_Nil normalize_vec_zero truthyVec_def large_frame_def EDGE_PADDING_def
      frameDelta_def clamp_def)

text \<open>C3 as stated covers every input vector. With no key held the position is not clamped:
  after mounting on a 200 by 200 canvas the leader stays at x = 130, outside [80, 120].\<close>

theorem leader_in_bounds_counterexample:
  "0 \<le> frameDelta small_frame small_start \<and>
   \<not> x (aksRef (step small_frame small_start)) \<le> clientWidth small_frame - EDGE_PADDING"
  by (simp add: step_aksRef small_start_fields sumDirections_Nil normalize_vec_zero
      moveAks_def truthyVec_def small_frame_def EDGE_PADDING_def frameDelta_def)

text \<open>The condition on the size is needed as well: with d held on a canvas 100 wide the
  clamp puts the leader at x = 20, left of the padding.\<close>

lemma leader_narrow_area:
  "truthyVec (normalize_vec (sumDirections (pressedKeysRef right_held))) \<and>
   x (aksRef (step narrow_frame right_held)) = 20"
  by (simp add: step_aksRef right_held_fields sumDirections_d normalize_vec_right
      truthyVec_def moveAks_def narrow_frame_def EDGE_PADDING_def clamp_def SPEED_def
      frameDelta_def)

section \<open>Collectibles: pickup\<close>

lemma sqrt_less_30: "sqrt a < 30 \<longleftrightarrow> a < 900"
proof -
  have "sqrt 900 = 30" by (rule real_sqrt_unique) simp_all
  then have "sqrt a < 30 \<longleftrightarrow> sqrt a < sqrt 900" by simp
  then show ?thesis by (simp only: real_sqrt_less_iff)
qed

lemma distanceToAks_less_30:
  "distanceToAks aks c < 30 \<longleftrightarrow>
     (x (position c) - x aks)\<^sup>2 + (y (position c) - y aks)\<^sup>2 < 900"
  by (simp add: distanceToAks_def length_vec_def sqrt_less_30)

lemma checkCollectible_taken:
  "taken (fst (checkCollectible aks delta c n)) = (taken c \<or> distanceToAks aks c < 30)"
  by (simp add: checkCollectible_def Let_def)

lemma checkCollectible_count:
  "snd (checkCollectible aks delta c n) =
     (if \<not> taken c \<and> distanceToAks aks c < 30 then n + 1 else n)"
  by (simp add: checkCollectible_def Let_def)

lemma checkCollectible_same:
  "id_num (fst (checkCollectible aks delta c n)) = id_num c"
  "position (fst (checkCollectible aks delta c n)) = position c"
  by (simp_all add: checkCollectible_def Let_def)

lemma forEachCollectible_Cons:
  "forEachCollectible aks delta (c # cs) n =
     (fst (checkCollectible aks delta c n)
        # fst (forEachCollectible aks delta cs (snd (checkCollectible aks delta c n))),
      snd (forEachCollectible aks delta cs (snd (checkCollectible aks delta c n))))"
  by (simp add: Let_def split: prod.split)

lemma forEachCollectible_length:
  "length (fst (forEachCollectible aks delta cs n)) = length cs"
  by (induction cs arbitrary: n) (simp_all add: forEachCollectible_Cons del: forEachCollectible.simps(2))

lemma forEachCollectible_map:
  "map taken (fst (forEachCollectible aks delta cs n)) =
     map (\<lambda>c. taken c \<or> distanceToAks aks c < 30) cs"
  by (induction cs arbitrary: n)
     (simp_all add: forEachCollectible_Cons checkCollectible_taken del: forEachCollectible.simps(2))

lemma forEachCollectible_count:
  "snd (forEachCollectible aks delta cs n) =
     n + length (filter (\<lambda>c. \<not> taken c \<and> distanceToAks aks c < 30) cs)"
  by (induction cs arbitrary: n)
     (simp_all add: forEachCollectible_Cons checkCollectible_count del: forEachCollectible.simps(2))

lemma forEachCollectible_all_taken:
  "list_all taken (fst (forEachCollectible aks delta cs n)) =
     list_all (\<lambda>c. taken c \<or> distanceToAks aks c < 30) cs"
proof -
  have "list_all taken (fst (forEachCollectible aks delta cs n)) =
        list_all (\<lambda>b. b) (map taken (fst (forEachCollectible aks delta cs n)))"
    by (simp add: list_all_iff)
  also have "\<dots> = list_all (\<lambda>b. b) (map (\<lambda>c. taken c \<or> distanceToAks aks c < 30) cs)"
    by (simp only: forEachCollectible_map)
  also have "\<dots> = list_all (\<lambda>c. taken c \<or> distanceToAks aks c < 30) cs"
    by (simp add: list_all_iff)
  finally show ?thesis .
qed

lemma step_collected_count:
  "collectedRef (step f s) =
     collectedRef s +
     length (filter (\<lambda>c. \<not> taken c \<and> distanceToAks (aksRef (step f s)) c < 30)
               (collectiblesRef s))"
  by (simp add: step_collectedRef forEachCollectible_count)

lemma forEachCollectible_same:
  "map position (fst (forEachCollectible aks delta cs n)) = map position cs"
  "map id_num (fst (forEachCollectible aks delta cs n)) = map id_num cs"
  by (induction cs arbitrary: n)
     (simp_all add: forEachCollectible_Cons checkCollectible_same del: forEachCollectible.simps(2))

lemma forEachCollectible_nth:
  assumes "i < length cs"
  shows "taken (fst (forEachCollectible aks delta cs n) ! i) =
           (taken (cs ! i) \<or> distanceToAks aks (cs ! i) < 30)"
    and "position (fst (forEachCollectible aks delta cs n) ! i) = position (cs ! i)"
    and "id_num (fst (forEachCollectible aks delta cs n) ! i) = id_num (cs ! i)"
proof -
  let ?checked = "fst (forEachCollectible aks delta cs n)"
  from assms have i: "i < length ?checked" by (simp add: forEachCollectible_length)
  from i have "taken (?checked ! i) = map taken ?checked ! i" by simp
  also have "\<dots> = (taken (cs ! i) \<or> distanceToAks aks (cs ! i) < 30)"
    using assms by (simp only: forEachCollectible_map nth_map)
  finally show "taken (?checked ! i) = (taken (cs ! i) \<or> distanceToAks aks (cs ! i) < 30)" .
  from i have "position (?checked ! i) = map position ?checked ! i" by simp
  also have "\<dots> = position (cs ! i)"
    using assms by (simp only: forEachCollectible_same nth_map)
  finally show "position (?checked ! i) = position (cs ! i)" .
  from i have "id_num (?checked ! i) = map id_num ?checked ! i" by simp
  also have "\<dots> = id_num (cs ! i)"
    using assms by (simp only: forEachCollectible_same nth_map)
  finally show "id_num (?checked ! i) = id_num (cs ! i)" .
qed

lemma step_batch_kept:
  assumes "\<not> list_all (\<lambda>c. taken c \<or> distanceToAks (aksRef (step f s)) c < 30)
               (collectiblesRef s)"
  shows "collectiblesRef (step f s) =
     fst (forEachCollectible (aksRef (step f s)) (frameDelta f s)
            (collectiblesRef s) (collectedRef s))"
  using assms by (simp add: step_collectiblesRef [of f s] forEachCollectible_all_taken)

text \<open>
  C6. In the frame's pass over the collectibles, measured against the leader's position after
  its move: a collectible not yet taken whose distance to the leader is less than 30 is
  marked taken by its check and the counter goes up by exactly 1; at a distance of 30 or more
  its check leaves the flag and the counter as they were. Over the whole pass the flags and
  the counter are what the single checks give. In the state after the frame the counter is
  the counter before plus the number of collectibles picked up; a collectible that was not
  taken and is 30 or more away is still in the batch, at its place and not taken; and as
  long as such a collectible is left, the batch after the frame is the batch before with
  exactly the collectibles within 30 newly marked taken. (When none is left the batch is
  complete and the frame replaces it.)
\<close>

theorem pickup_within_30:
  "(\<not> taken c \<longrightarrow> distanceToAks aks c < 30 \<longrightarrow>
      taken (fst (checkCollectible aks delta c n)) \<and>
      snd (checkCollectible aks delta c n) = n + 1) \<and>
   (\<not> taken c \<longrightarrow> \<not> distanceToAks aks c < 30 \<longrightarrow>
      \<not> taken (fst (checkCollectible aks delta c n)) \<and>
      snd (checkCollectible aks delta c n) = n) \<and>
   (\<forall>i < length cs.
      taken (fst (forEachCollectible aks delta cs n) ! i) =
        (taken (cs ! i) \<or> distanceToAks aks (cs ! i) < 30)) \<and>
   snd (forEachCollectible aks delta cs n) =
     n + length (filter (\<lambda>c. \<not> taken c \<and> distanceToAks aks c < 30) cs) \<and>
   collectedRef (step f s) =
     collectedRef s +
     length (filter (\<lambda>c. \<not> taken c \<and> distanceToAks (aksRef (step f s)) c < 30)
               (collectiblesRef s)) \<and>
   (\<forall>i < length (collectiblesRef s).
      \<not> taken (collectiblesRef s ! i) \<longrightarrow>
      \<not> distanceToAks (aksRef (step f s)) (collectiblesRef s ! i) < 30 \<longrightarrow>
        length (collectiblesRef (step f s)) = length (collectiblesRef s) \<and>
        \<not> taken (collectiblesRef (step f s) ! i) \<and>
        position (collectiblesRef (step f s) ! i) = position (collectiblesRef s ! i) \<and>
        id_num (collectiblesRef (step f s) ! i) = id_num (collectiblesRef s ! i)) \<and>
   (\<not> list_all (\<lambda>c. taken c \<or> distanceToAks (aksRef (step f s)) c < 30)
        (collectiblesRef s) \<longrightarrow>
      length (collectiblesRef (step f s)) = length (collectiblesRef s) \<and>
      (\<forall>i < length (collectiblesRef s).
         taken (collectiblesRef (step f s) ! i) =
           (taken (collectiblesRef s ! i) \<or>
            distanceToAks (aksRef (step f s)) (collectiblesRef s ! i) < 30) \<and>
         position (collectiblesRef (step f s) ! i) = position (collectiblesRef s ! i) \<and>
         id_num (collectiblesRef (step f s) ! i) = id_num (collectiblesRef s ! i)))"
proof -
  let ?aks = "aksRef (step f s)"
  let ?cs = "collectiblesRef s"
  have calls: "(\<not> taken c \<longrightarrow> distanceToAks aks c < 30 \<longrightarrow>
      taken (fst (checkCollectible aks delta c n)) \<and>
      snd (checkCollectible aks delta c n) = n + 1) \<and>
   (\<not> taken c \<longrightarrow> \<not> distanceToAks aks c < 30 \<longrightarrow>
      \<not> taken (fst (checkCollectible aks delta c n)) \<and>
      snd (checkCollectible aks delta c n) = n) \<and>
   (\<forall>i < length cs.
      taken (fst (forEachCollectible aks delta cs n) ! i) =
        (taken (cs ! i) \<or> distanceToAks aks (cs ! i) < 30)) \<and>
   snd (forEachCollectible aks delta cs n) =
     n + length (filter (\<lambda>c. \<not> taken c \<and> distanceToAks aks c < 30) cs)"
    by (simp add: checkCollectible_taken checkCollectible_count forEachCollectible_count
        forEachCollectible_nth(1))
  have counter: "collectedRef (step f s) =
     collectedRef s +
     length (filter (\<lambda>c. \<not> taken c \<and> distanceToAks ?aks c < 30) ?cs)"
    by (rule step_collected_count)
  have kept: "length (collectiblesRef (step f s)) = length ?cs \<and>
      (\<forall>i < length ?cs.
         taken (collectiblesRef (step f s) ! i) =
           (taken (?cs ! i) \<or> distanceToAks ?aks (?cs ! i) < 30) \<and>
         position (collectiblesRef (step f s) ! i) = position (?cs ! i) \<and>
         id_num (collectiblesRef (step f s) ! i) = id_num (?cs ! i))"
    if open_batch: "\<not> list_all (\<lambda>c. taken c \<or> distanceToAks ?aks c < 30) ?cs"
    by (simp add: step_batch_kept [OF open_batch] forEachCollectible_length
        forEachCollectible_nth)
  have far: "length (collectiblesRef (step f s)) = length ?cs \<and>
        \<not> taken (collectiblesRef (step f s) ! i) \<and>
        position (collectiblesRef (step f s) ! i) = position (?cs ! i) \<and>
        id_num (collectiblesRef (step f s) ! i) = id_num (?cs ! i)"
    if i: "i < length ?cs" and untaken: "\<not> taken (?cs ! i)"
      and away: "\<not> distanceToAks ?aks (?cs ! i) < 30" for i
  proof -
    from i have "?cs ! i \<in> set ?cs" by simp
    with untaken away have "\<not> list_all (\<lambda>c. taken c \<or> distanceToAks ?aks c < 30) ?cs"
      by (auto simp add: list_all_iff)
    from kept [OF this] i untaken away show ?thesis by simp
  qed
  from calls counter kept far show ?thesis by blast
qed

lemma star_game_fields:
  "aksRef star_game = \<lparr>x = 650, y = 550\<rparr>"
  "pressedKeysRef star_game = []"
  "collectedRef star_game = 0"
  "collectiblesRef star_game = [near_star, far_star]"
  by (simp_all add: star_game_def large_start_fields)

lemma aksRef_star_step: "aksRef (step large_frame star_game) = \<lparr>x = 650, y = 550\<rparr>"
  by (simp add: step_aksRef star_game_fields sumDirections_Nil normalize_vec_zero
      moveAks_def truthyVec_def)

lemma near_far:
  "\<not> taken near_star" "\<not> taken far_star"
  "distanceToAks \<lparr>x = 650, y = 550\<rparr> near_star < 30"
  "\<not> distanceToAks \<lparr>x = 650, y = 550\<rparr> far_star < 30"
  by (simp_all add: distanceToAks_less_30 near_star_def far_star_def)

theorem pickup_within_30_witness:
  "\<not> taken near_star \<and> distanceToAks \<lparr>x = 650, y = 550\<rparr> near_star < 30 \<and>
   taken (fst (checkCollectible \<lparr>x = 650, y = 550\<rparr> (2 / 125) near_star 4)) \<and>
   snd (checkCollectible \<lparr>x = 650, y = 550\<rparr> (2 / 125) near_star 4) = 5 \<and>
   \<not> taken far_star \<and> \<not> distanceToAks \<lparr>x = 650, y = 550\<rparr> far_star < 30 \<and>
   \<not> taken (fst (checkCollectible \<lparr>x = 650, y = 550\<rparr> (2 / 125) far_star 4)) \<and>
   snd (checkCollectible \<lparr>x = 650, y = 550\<rparr> (2 / 125) far_star 4) = 4 \<and>
   (0::nat) < length [near_star, far_star] \<and>
   taken (fst (forEachCollectible \<lparr>x = 650, y = 550\<rparr> (2 / 125) [near_star, far_star] 4) ! 0) \<and>
   collectiblesRef star_game = [near_star, far_star] \<and>
   aksRef (step large_frame star_game) = \<lparr>x = 650, y = 550\<rparr> \<and>
   \<not> list_all (\<lambda>c. taken c \<or> distanceToAks (aksRef (step large_frame star_game)) c < 30)
       (collectiblesRef star_game) \<and>
   collectedRef star_game = 0 \<and>
   collectedRef (step large_frame star_game) = 1 \<and>
   length (collectiblesRef (step large_frame star_game)) = 2 \<and>
   taken (collectiblesRef (step large_frame star_game) ! 0) \<and>
   position (collectiblesRef (step large_frame star_game) ! 0) = \<lparr>x = 650, y = 560\<rparr> \<and>
   \<not> taken (collectiblesRef (step large_frame star_game) ! 1) \<and>
   position (collectiblesRef (step large_frame star_game) ! 1) = \<lparr>x = 500, y = 500\<rparr>"
proof -
  note near = pickup_within_30 [of near_star "\<lparr>x = 650, y = 550\<rparr>" "2 / 125" 4
      "[near_star, far_star]" large_frame star_game]
  note far = pickup_within_30 [of far_star "\<lparr>x = 650, y = 550\<rparr>" "2 / 125" 4
      "[near_star, far_star]" large_frame star_game]
  have open_batch:
    "\<not> list_all (\<lambda>c. taken c \<or> distanceToAks (aksRef (step large_frame star_game)) c < 30)
       (collectiblesRef star_game)"
    by (simp add: aksRef_star_step star_game_fields near_far)
  with near have
    len: "length (collectiblesRef (step large_frame star_game)) = length (collectiblesRef star_game)"
    and each: "\<forall>i < length (collectiblesRef star_game).
         taken (collectiblesRef (step large_frame star_game) ! i) =
           (taken (collectiblesRef star_game ! i) \<or>
            distanceToAks (aksRef (step large_frame star_game)) (collectiblesRef star_game ! i) < 30) \<and>
         position (collectiblesRef (step large_frame star_game) ! i) =
           position (collectiblesRef star_game ! i) \<and>
         id_num (collectiblesRef (step large_frame star_game) ! i) =
           id_num (collectiblesRef star_game ! i)"
    by blast+
  have "0 < length (collectiblesRef star_game)" "1 < length (collectiblesRef star_game)"
    by (simp_all add: star_game_fields)
  with each have
    "taken (collectiblesRef (step large_frame star_game) ! 0) =
       (taken (collectiblesRef star_game ! 0) \<or>
        distanceToAks (aksRef (step large_frame star_game)) (collectiblesRef star_game ! 0) < 30)"
    "position (collectiblesRef (step large_frame star_game) ! 0) =
       position (collectiblesRef star_game ! 0)"
    "taken (collectiblesRef (step large_frame star_game) ! 1) =
       (taken (collectiblesRef star_game ! 1) \<or>
        distanceToAks (aksRef (step large_frame star_game)) (collectiblesRef star_game ! 1) < 30)"
    "position (collectiblesRef (step large_frame star_game) ! 1) =
       position (collectiblesRef star_game ! 1)"
    by blast+
  then have state:
    "taken (collectiblesRef (step large_frame star_game) ! 0)"
    "position (collectiblesRef (step large_frame star_game) ! 0) = \<lparr>x = 650, y = 560\<rparr>"
    "\<not> taken (collectiblesRef (step large_frame star_game) ! 1)"
    "position (collectiblesRef (step large_frame star_game) ! 1) = \<lparr>x = 500, y = 500\<rparr>"
    by (simp_all add: aksRef_star_step star_game_fields near_far)
       (simp_all add: near_star_def far_star_def)
  from len have two: "length (collectiblesRef (step large_frame star_game)) = 2"
    by (simp add: star_game_fields)
  from near far open_batch state two show ?thesis
    by (simp add: near_far aksRef_star_step star_game_fields)
qed

section \<open>Collectibles: new batches\<close>

lemma upt_6: "[0..<6] = [0, 1, 2, 3, 4, 5]"
  by (simp add: upt_rec)

lemma generateCollectibles_list:
  "generateCollectibles width height rnd =
     map (\<lambda>index.
            \<lparr>id_num = index,
             position = \<lparr>x = 110 + rnd (3 * index) * (width - 220),
                         y = 110 + rnd (3 * index + 1) * (height - 220)\<rparr>,
             taken = False,
             spin = rnd (3 * index + 2) * pi * 2\<rparr>) [0, 1, 2, 3, 4, 5]"
  by (simp add: generateCollectibles_def EDGE_PADDING_def upt_6 del: upt_Suc)

lemma generateCollectibles_length: "length (generateCollectibles width height rnd) = 6"
  by (simp add: generateCollectibles_def Let_def)

lemma generateCollectibles_member:
  assumes "c \<in> set (generateCollectibles width height rnd)"
  obtains index where
    "c = \<lparr>id_num = index,
          position = \<lparr>x = (EDGE_PADDING + 30) + rnd (3 * index) * (width - (EDGE_PADDING + 30) * 2),
                      y = (EDGE_PADDING + 30)
                          + rnd (3 * index + 1) * (height - (EDGE_PADDING + 30) * 2)\<rparr>,
          taken = False,
          spin = rnd (3 * index + 2) * pi * 2\<rparr>"
proof -
  from assms have "c \<in> (\<lambda>index.
      \<lparr>id_num = index,
       position = \<lparr>x = (EDGE_PADDING + 30) + rnd (3 * index) * (width - (EDGE_PADDING + 30) * 2),
                   y = (EDGE_PADDING + 30)
                       + rnd (3 * index + 1) * (height - (EDGE_PADDING + 30) * 2)\<rparr>,
       taken = False,
       spin = rnd (3 * index + 2) * pi * 2\<rparr>) ` set [0..<6]"
    by (simp only: generateCollectibles_def Let_def set_map)
  then show thesis using that by blast
qed

lemma generateCollectibles_not_taken:
  "c \<in> set (generateCollectibles width height rnd) \<Longrightarrow> \<not> taken c"
  by (erule generateCollectibles_member) simp

lemma scaled_draw_bounds:
  fixes r m d :: real
  assumes "0 \<le> r" "r < 1" "2 * m \<le> d"
  shows "m \<le> m + r * (d - m * 2) \<and> m + r * (d - m * 2) \<le> d - m"
proof -
  from assms(3) have span: "0 \<le> d - m * 2" by simp
  with assms(1) have "0 \<le> r * (d - m * 2)" by (rule mult_nonneg_nonneg)
  then have lower: "m \<le> m + r * (d - m * 2)" by simp
  from assms(2) have "r \<le> 1" by simp
  then have "r * (d - m * 2) \<le> 1 * (d - m * 2)" using span by (rule mult_right_mono)
  then have "m + r * (d - m * 2) \<le> d - m" by simp
  with lower show ?thesis by simp
qed

lemma generateCollectibles_inset:
  assumes c: "c \<in> set (generateCollectibles width height rnd)"
    and rnd: "\<forall>k. 0 \<le> rnd k \<and> rnd k < 1"
  shows "2 * (EDGE_PADDING + 30) \<le> width \<Longrightarrow>
           EDGE_PADDING + 30 \<le> x (position c) \<and> x (position c) \<le> width - (EDGE_PADDING + 30)"
    and "2 * (EDGE_PADDING + 30) \<le> height \<Longrightarrow>
           EDGE_PADDING + 30 \<le> y (position c) \<and> y (position c) \<le> height - (EDGE_PADDING + 30)"
proof -
  from c obtain i where ci:
    "c = \<lparr>id_num = i,
          position = \<lparr>x = (EDGE_PADDING + 30) + rnd (3 * i) * (width - (EDGE_PADDING + 30) * 2),
                      y = (EDGE_PADDING + 30)
                          + rnd (3 * i + 1) * (height - (EDGE_PADDING + 30) * 2)\<rparr>,
          taken = False,
          spin = rnd (3 * i + 2) * pi * 2\<rparr>"
    by (rule generateCollectibles_member)
  have px: "x (position c) = (EDGE_PADDING + 30) + rnd (3 * i) * (width - (EDGE_PADDING + 30) * 2)"
    and py: "y (position c) = (EDGE_PADDING + 30) + rnd (3 * i + 1) * (height - (EDGE_PADDING + 30) * 2)"
    by (simp_all add: ci)
  from rnd have rx: "0 \<le> rnd (3 * i)" "rnd (3 * i) < 1"
    and ry: "0 \<le> rnd (3 * i + 1)" "rnd (3 * i + 1) < 1"
    by simp_all
  show "EDGE_PADDING + 30 \<le> x (position c) \<and> x (position c) \<le> width - (EDGE_PADDING + 30)"
    if "2 * (EDGE_PADDING + 30) \<le> width"
    using scaled_draw_bounds [OF rx that] by (simp only: px)
  show "EDGE_PADDING + 30 \<le> y (position c) \<and> y (position c) \<le> height - (EDGE_PADDING + 30)"
    if "2 * (EDGE_PADDING + 30) \<le> height"
    using scaled_draw_bounds [OF ry that] by (simp only: py)
qed

text \<open>
  C7 (amended). If after the frame's pass over the collectibles every collectible of the
  batch is taken, the frame installs a new batch: six collectibles, none taken, drawn by
  \<open>generateCollectibles\<close>. The counter is not touched by this: it is the counter before the
  frame plus the collectibles picked up on it. With random draws in [0, 1), and a canvas at
  least \<open>2 * (EDGE_PADDING + 30) = 220\<close> wide and high, the new positions lie in the inset
  rectangle.
\<close>

theorem batch_regenerated:
  "list_all taken
     (fst (forEachCollectible (aksRef (step f s)) (frameDelta f s)
             (collectiblesRef s) (collectedRef s))) \<Longrightarrow>
   collectiblesRef (step f s) = generateCollectibles (clientWidth f) (clientHeight f) (random f) \<and>
   length (collectiblesRef (step f s)) = 6 \<and>
   (\<forall>c \<in> set (collectiblesRef (step f s)). \<not> taken c) \<and>
   collectedRef (step f s) =
     collectedRef s +
     length (filter (\<lambda>c. \<not> taken c \<and> distanceToAks (aksRef (step f s)) c < 30)
               (collectiblesRef s)) \<and>
   (2 * (EDGE_PADDING + 30) \<le> clientWidth f \<and> 2 * (EDGE_PADDING + 30) \<le> clientHeight f \<and>
    (\<forall>k. 0 \<le> random f k \<and> random f k < 1) \<longrightarrow>
      (\<forall>c \<in> set (collectiblesRef (step f s)).
         EDGE_PADDING + 30 \<le> x (position c) \<and>
         x (position c) \<le> clientWidth f - (EDGE_PADDING + 30) \<and>
         EDGE_PADDING + 30 \<le> y (position c) \<and>
         y (position c) \<le> clientHeight f - (EDGE_PADDING + 30)))"
proof -
  assume "list_all taken
     (fst (forEachCollectible (aksRef (step f s)) (frameDelta f s)
             (collectiblesRef s) (collectedRef s)))"
  then have new: "collectiblesRef (step f s) =
      generateCollectibles (clientWidth f) (clientHeight f) (random f)"
    by (simp add: step_collectiblesRef)
  show ?thesis
    unfolding new
    using generateCollectibles_inset [of _ "clientWidth f" "clientHeight f" "random f"]
    by (simp add: generateCollectibles_length generateCollectibles_not_taken
        step_collected_count)
qed

lemma crowded_start_fields:
  "aksRef crowded_start = \<lparr>x = 650, y = 550\<rparr>"
  "pressedKeysRef crowded_start = []"
  "collectedRef crowded_start = 0"
  "map position (collectiblesRef crowded_start) =
     [\<lparr>x = 650, y = 550\<rparr>, \<lparr>x = 650, y = 550\<rparr>, \<lparr>x = 650, y = 550\<rparr>,
      \<lparr>x = 650, y = 550\<rparr>, \<lparr>x = 650, y = 550\<rparr>, \<lparr>x = 650, y = 550\<rparr>]"
  "map taken (collectiblesRef crowded_start) = [False, False, False, False, False, False]"
  by (simp_all add: crowded_start_def initializePositions_def initialGame_def
      generateCollectibles_list nearDraws_def)

lemma large_frame_fields:
  "timestamp large_frame = 16" "now large_frame = 130"
  "clientWidth large_frame = 1000" "clientHeight large_frame = 1000"
  "random large_frame = halfDraws"
  by (simp_all add: large_frame_def)

lemma small_frame_fields:
  "timestamp small_frame = 16" "now small_frame = 130"
  "clientWidth small_frame = 200" "clientHeight small_frame = 200"
  "random small_frame = halfDraws"
  by (simp_all add: small_frame_def)

lemma halfDraws_unit: "\<forall>k. 0 \<le> halfDraws k \<and> halfDraws k < 1"
  by (simp add: halfDraws_def)

lemma aksRef_crowded_step: "aksRef (step large_frame crowded_start) = \<lparr>x = 650, y = 550\<rparr>"
  by (simp add: step_aksRef crowded_start_fields sumDirections_Nil normalize_vec_zero
      moveAks_def truthyVec_def)

lemma crowded_all_near:
  "list_all (\<lambda>c. taken c \<or> distanceToAks \<lparr>x = 650, y = 550\<rparr> c < 30)
     (collectiblesRef crowded_start)"
  by (simp add: crowded_start_def initializePositions_def generateCollectibles_list
      nearDraws_def distanceToAks_less_30)

lemma crowded_newly_taken:
  "length (filter (\<lambda>c. \<not> taken c \<and> distanceToAks \<lparr>x = 650, y = 550\<rparr> c < 30)
     (collectiblesRef crowded_start)) = 6"
  by (simp add: crowded_start_def initializePositions_def generateCollectibles_list
      nearDraws_def distanceToAks_less_30)

theorem batch_regenerated_witness:
  "list_all taken
     (fst (forEachCollectible (aksRef (step large_frame crowded_start))
             (frameDelta large_frame crowded_start)
             (collectiblesRef crowded_start) (collectedRef crowded_start))) \<and>
   2 * (EDGE_PADDING + 30) \<le> clientWidth large_frame \<and>
   2 * (EDGE_PADDING + 30) \<le> clientHeight large_frame \<and>
   (\<forall>k. 0 \<le> random large_frame k \<and> random large_frame k < 1) \<and>
   length (collectiblesRef (step large_frame crowded_start)) = 6 \<and>
   collectedRef crowded_start = 0 \<and>
   collectedRef (step large_frame crowded_start) = 6 \<and>
   map position (collectiblesRef (step large_frame crowded_start)) =
     [\<lparr>x = 500, y = 500\<rparr>, \<lparr>x = 500, y = 500\<rparr>, \<lparr>x = 500, y = 500\<rparr>,
      \<lparr>x = 500, y = 500\<rparr>, \<lparr>x = 500, y = 500\<rparr>, \<lparr>x = 500, y = 500\<rparr>] \<and>
   map taken (collectiblesRef (step large_frame crowded_start)) =
     [False, False, False, False, False, False]"
proof -
  have all: "list_all taken
     (fst (forEachCollectible (aksRef (step large_frame crowded_start))
             (frameDelta large_frame crowded_start)
             (collectiblesRef crowded_start) (collectedRef crowded_start)))"
    by (simp only: forEachCollectible_all_taken aksRef_crowded_step crowded_all_near)
  have new: "generateCollectibles 1000 1000 halfDraws =
      map (\<lambda>index. \<lparr>id_num = index, position = \<lparr>x = 500, y = 500\<rparr>, taken = False,
                      spin = pi\<rparr>) [0, 1, 2, 3, 4, 5]"
    by (simp add: generateCollectibles_list halfDraws_def)
  from batch_regenerated [OF all] all show ?thesis
    by (simp add: new aksRef_crowded_step crowded_newly_taken crowded_start_fields
        large_frame_fields EDGE_PADDING_def halfDraws_unit)
qed

lemma left_held_small_fields:
  "aksRef left_held_small = \<lparr>x = 130, y = 110\<rparr>"
  "pressedKeysRef left_held_small = [''a'']"
  "lastTimestamp left_held_small = None"
  "collectedRef left_held_small = 0"
  by (simp_all add: left_held_small_def small_start_fields)

lemma sumDirections_a: "sumDirections [''a''] = Numbers \<lparr>x = -1, y = 0\<rparr>"
  by (simp add: sumDirections_def KEY_DIRECTIONS_def)

lemma normalize_vec_left: "normalize_vec (Numbers \<lparr>x = -1, y = 0\<rparr>) = \<lparr>x = -1, y = 0\<rparr>"
  by (simp add: normalize_vec_def length_vec_def)

lemma aksRef_left_small_step:
  "aksRef (step small_frame left_held_small) = \<lparr>x = 120, y = 110\<rparr>"
  by (simp add: step_aksRef left_held_small_fields sumDirections_a normalize_vec_left
      moveAks_def truthyVec_def frameDelta_def small_frame_fields clamp_def EDGE_PADDING_def)

lemma small_all_near:
  "list_all (\<lambda>c. taken c \<or> distanceToAks \<lparr>x = 120, y = 110\<rparr> c < 30)
     (collectiblesRef left_held_small)"
  by (simp add: left_held_small_def small_start_def initializePositions_def
      generateCollectibles_list halfDraws_def distanceToAks_less_30)

text \<open>C7 as stated puts the new positions inside the inset rectangle on every canvas. On a
  200 by 200 canvas, with the key a held, the first frame clamps the leader to (120, 110),
  picks up all six collectibles at (100, 100), and the new batch drawn with 1/2 is at
  x = 100 again, left of the inset 110: the inset rectangle of so small a canvas is empty.\<close>

theorem batch_regenerated_counterexample:
  "list_all taken
     (fst (forEachCollectible (aksRef (step small_frame left_held_small))
             (frameDelta small_frame left_held_small)
             (collectiblesRef left_held_small) (collectedRef left_held_small))) \<and>
   halfDraws 0 = 1 / 2 \<and>
   x (position (hd (collectiblesRef (step small_frame left_held_small)))) = 100 \<and>
   \<not> EDGE_PADDING + 30 \<le> x (position (hd (collectiblesRef (step small_frame left_held_small))))"
proof -
  have all: "list_all taken
     (fst (forEachCollectible (aksRef (step small_frame left_held_small))
             (frameDelta small_frame left_held_small)
             (collectiblesRef left_held_small) (collectedRef left_held_small)))"
    by (simp only: forEachCollectible_all_taken aksRef_left_small_step small_all_near)
  then have "collectiblesRef (step small_frame left_held_small) =
      generateCollectibles (clientWidth small_frame) (clientHeight small_frame)
        (random small_frame)"
    by (simp add: step_collectiblesRef)
  with all show ?thesis
    by (simp add: generateCollectibles_list small_frame_fields halfDraws_def EDGE_PADDING_def)
qed

section \<open>Resize\<close>

text \<open>
  C8 (amended). A resize, in whatever state it arrives, sets the elapsed time and the
  collected count to 0, makes the trail the single point where the follower is put, places
  the leader at (0.65 w, 0.55 h) and the follower at (0.5 w, 0.6 h), clears the last
  timestamp, so that the next frame has a delta of 0, and installs a fresh batch of six
  collectibles, none taken. With random draws in [0, 1), and new dimensions of at least
  \<open>2 * (EDGE_PADDING + 30) = 220\<close> each, the batch lies in the new inset rectangle.
\<close>

theorem resize_resets:
  "timeRef (exec (Resize w h rnd) s) = 0 \<and>
   collectedRef (exec (Resize w h rnd) s) = 0 \<and>
   trailRef (exec (Resize w h rnd) s) = [\<lparr>x = w * 0.5, y = h * 0.6\<rparr>] \<and>
   length (trailRef (exec (Resize w h rnd) s)) = 1 \<and>
   aksRef (exec (Resize w h rnd) s) = \<lparr>x = w * 0.65, y = h * 0.55\<rparr> \<and>
   oliveRef (exec (Resize w h rnd) s) = \<lparr>x = w * 0.5, y = h * 0.6\<rparr> \<and>
   lastTimestamp (exec (Resize w h rnd) s) = None \<and>
   frameDelta f (exec (Resize w h rnd) s) = 0 \<and>
   collectiblesRef (exec (Resize w h rnd) s) = generateCollectibles w h rnd \<and>
   length (collectiblesRef (exec (Resize w h rnd) s)) = 6 \<and>
   (\<forall>c \<in> set (collectiblesRef (exec (Resize w h rnd) s)). \<not> taken c) \<and>
   (2 * (EDGE_PADDING + 30) \<le> w \<and> 2 * (EDGE_PADDING + 30) \<le> h \<and>
    (\<forall>k. 0 \<le> rnd k \<and> rnd k < 1) \<longrightarrow>
      (\<forall>c \<in> set (collectiblesRef (exec (Resize w h rnd) s)).
         EDGE_PADDING + 30 \<le> x (position c) \<and> x (position c) \<le> w - (EDGE_PADDING + 30) \<and>
         EDGE_PADDING + 30 \<le> y (position c) \<and> y (position c) \<le> h - (EDGE_PADDING + 30)))"
  using generateCollectibles_inset [of _ w h rnd]
  by (simp add: initializePositions_def frameDelta_def generateCollectibles_length
      generateCollectibles_not_taken)

theorem resize_resets_witness:
  "timeRef paced_game = 10 \<and> collectedRef paced_game = 2 \<and>
   timeRef (exec (Resize 1000 1000 halfDraws) paced_game) = 0 \<and>
   collectedRef (exec (Resize 1000 1000 halfDraws) paced_game) = 0 \<and>
   trailRef (exec (Resize 1000 1000 halfDraws) paced_game) = [\<lparr>x = 500, y = 600\<rparr>] \<and>
   aksRef (exec (Resize 1000 1000 halfDraws) paced_game) = \<lparr>x = 650, y = 550\<rparr> \<and>
   2 * (EDGE_PADDING + 30) \<le> (1000::real) \<and>
   (\<forall>k. 0 \<le> halfDraws k \<and> halfDraws k < 1) \<and>
   map position (collectiblesRef (exec (Resize 1000 1000 halfDraws) paced_game)) =
     [\<lparr>x = 500, y = 500\<rparr>, \<lparr>x = 500, y = 500\<rparr>, \<lparr>x = 500, y = 500\<rparr>,
      \<lparr>x = 500, y = 500\<rparr>, \<lparr>x = 500, y = 500\<rparr>, \<lparr>x = 500, y = 500\<rparr>]"
  using resize_resets [of 1000 1000 halfDraws paced_game large_frame]
  by (simp add: paced_game_def initialGame_def EDGE_PADDING_def halfDraws_unit
      generateCollectibles_list halfDraws_def)

text \<open>C8 as stated puts the fresh batch inside the inset rectangle of any new bounds. After
  a resize to 200 by 200 a draw of 1/2 gives x = 110 + (200 - 220) / 2 = 100, left of the
  inset 110.\<close>

theorem resize_resets_counterexample:
  "halfDraws 0 = 1 / 2 \<and>
   x (position (hd (collectiblesRef (exec (Resize 200 200 halfDraws) large_start)))) = 100 \<and>
   \<not> EDGE_PADDING + 30
       \<le> x (position (hd (collectiblesRef (exec (Resize 200 200 halfDraws) large_start))))"
  by (simp add: initializePositions_def generateCollectibles_list halfDraws_def EDGE_PADDING_def)

section \<open>Trail\<close>

lemma handleKey_trailRef:
  "trailRef (handleKeyDown k s) = trailRef s"
  "trailRef (handleKeyUp k s) = trailRef s"
  by (simp_all add: handleKeyDown_def handleKeyUp_def Let_def)

lemma pushTrail_drop:
  assumes "length trail \<le> TRAIL_LIMIT"
  shows "pushTrail trail p = drop (length (trail @ [p]) - TRAIL_LIMIT) (trail @ [p])"
proof (cases "length trail < TRAIL_LIMIT")
  case True
  then show ?thesis by (simp add: pushTrail_def Let_def)
next
  case False
  with assms have full: "length trail = TRAIL_LIMIT" by simp
  then have "trail \<noteq> []" by (auto simp add: TRAIL_LIMIT_def)
  with full show ?thesis
    by (simp add: pushTrail_def Let_def drop_Suc TRAIL_LIMIT_def)
qed

lemma pushTrail_length:
  "length trail \<le> TRAIL_LIMIT \<Longrightarrow> length (pushTrail trail p) \<le> TRAIL_LIMIT"
  by (simp add: pushTrail_def Let_def)

lemma pushTrail_last: "last (pushTrail trail p) = p"
  by (cases trail) (simp_all add: pushTrail_def Let_def last_tl TRAIL_LIMIT_def)

lemma exec_trail_bounded:
  "length (trailRef s) \<le> TRAIL_LIMIT \<Longrightarrow> length (trailRef (exec e s)) \<le> TRAIL_LIMIT"
proof (cases e)
  case (Resize w h rnd)
  then show ?thesis by (simp add: initializePositions_def TRAIL_LIMIT_def)
qed (simp_all add: handleKey_trailRef step_trailRef pushTrail_length)

lemma run_trail_bounded:
  "length (trailRef s) \<le> TRAIL_LIMIT \<Longrightarrow> length (trailRef (run es s)) \<le> TRAIL_LIMIT"
  by (induction es arbitrary: s) (simp_all add: exec_trail_bounded)

lemma drop_keep_append:
  "drop (length (drop (length xs - n) xs @ ys) - n) (drop (length xs - n) xs @ ys) =
   drop (length (xs @ ys) - n) (xs @ ys)"
  by (cases "length xs \<le> n") (simp_all add: ac_simps)

lemma exec_trail_keep:
  assumes "\<not> isResize e" "length (trailRef s) \<le> TRAIL_LIMIT"
  shows "trailRef (exec e s) =
     drop (length (trailRef s @ leaderPositions [e] s) - TRAIL_LIMIT)
       (trailRef s @ leaderPositions [e] s)"
proof (cases e)
  case (Frame f)
  with assms(2) show ?thesis
    by (simp add: step_trailRef pushTrail_drop)
qed (use assms in \<open>simp_all add: handleKey_trailRef\<close>)

lemma leaderPositions_Cons:
  "leaderPositions (e # es) s = leaderPositions [e] s @ leaderPositions es (exec e s)"
  by simp

lemma run_trail_keep:
  "\<not> list_ex isResize es \<Longrightarrow> length (trailRef s) \<le> TRAIL_LIMIT \<Longrightarrow>
   trailRef (run es s) =
     drop (length (trailRef s @ leaderPositions es s) - TRAIL_LIMIT)
       (trailRef s @ leaderPositions es s)"
proof (induction es arbitrary: s)
  case Nil
  then show ?case by simp
next
  case (Cons e es)
  let ?s = "exec e s"
  from Cons.prems have e: "\<not> isResize e" and es: "\<not> list_ex isResize es" by simp_all
  have bounded: "length (trailRef ?s) \<le> TRAIL_LIMIT"
    using Cons.prems(2) by (rule exec_trail_bounded)
  have "trailRef (run (e # es) s) = trailRef (run es ?s)" by simp
  also have "\<dots> = drop (length (trailRef ?s @ leaderPositions es ?s) - TRAIL_LIMIT)
      (trailRef ?s @ leaderPositions es ?s)"
    using es bounded by (rule Cons.IH)
  also have "\<dots> = drop (length ((trailRef s @ leaderPositions [e] s) @ leaderPositions es ?s)
        - TRAIL_LIMIT) ((trailRef s @ leaderPositions [e] s) @ leaderPositions es ?s)"
    by (simp only: exec_trail_keep [OF e Cons.prems(2)] drop_keep_append)
  also have "\<dots> = drop (length (trailRef s @ leaderPositions (e # es) s) - TRAIL_LIMIT)
      (trailRef s @ leaderPositions (e # es) s)"
    by (simp only: leaderPositions_Cons [of e es s] append_assoc)
  finally show ?case .
qed

lemma leaderPositions_length: "length (leaderPositions es s) = length (filter isFrame es)"
  by (induction es arbitrary: s) simp_all

lemma leaderPositions_idle:
  "list_all isFrame es \<Longrightarrow>
   normalize_vec (sumDirections (pressedKeysRef s)) = \<lparr>x = 0, y = 0\<rparr> \<Longrightarrow>
   leaderPositions es s = replicate (length es) (aksRef s)"
proof (induction es arbitrary: s)
  case Nil
  show ?case by simp
next
  case (Cons e es)
  from Cons.prems(1) obtain f where e: "e = Frame f"
    by (cases e) simp_all
  have "leaderPositions es (step f s) = replicate (length es) (aksRef (step f s))"
    using Cons.prems by (intro Cons.IH) (simp_all add: step_pressedKeysRef)
  with Cons.prems(2) show ?case
    by (simp add: e step_idle)
qed

text \<open>
  C5. A frame appends the leader's current position to the end of the trail, once, and drops
  the oldest sample when the trail would grow beyond 180. So the trail never holds more than
  180 samples, from the initial state on and through resizes; over a run without a resize it
  is the last 180 of what it held before followed by the leader's positions frame by frame;
  and after 180 or more frames, so after 200, it is exactly the last 180 leader positions,
  oldest first.
\<close>

theorem trail_keeps_last_180:
  "length (trailRef (run es initialGame)) \<le> 180 \<and>
   (length (trailRef s) \<le> TRAIL_LIMIT \<longrightarrow>
   length (trailRef (run es s)) \<le> 180 \<and>
   last (trailRef (step f s)) = aksRef (step f s) \<and>
   trailRef (step f s) =
     (if length (trailRef s) < 180 then trailRef s @ [aksRef (step f s)]
      else tl (trailRef s) @ [aksRef (step f s)]) \<and>
   (\<not> list_ex isResize es \<longrightarrow>
      trailRef (run es s) =
        drop (length (trailRef s @ leaderPositions es s) - 180)
          (trailRef s @ leaderPositions es s)) \<and>
   (\<not> list_ex isResize es \<and> 180 \<le> length (filter isFrame es) \<longrightarrow>
      length (trailRef (run es s)) = 180 \<and>
      trailRef (run es s) =
        drop (length (leaderPositions es s) - 180) (leaderPositions es s)))"
proof -
  have init: "length (trailRef (run es initialGame)) \<le> 180"
    using run_trail_bounded [of initialGame es] by (simp add: initialGame_def TRAIL_LIMIT_def)
  have rest: "length (trailRef (run es s)) \<le> 180 \<and>
   last (trailRef (step f s)) = aksRef (step f s) \<and>
   trailRef (step f s) =
     (if length (trailRef s) < 180 then trailRef s @ [aksRef (step f s)]
      else tl (trailRef s) @ [aksRef (step f s)]) \<and>
   (\<not> list_ex isResize es \<longrightarrow>
      trailRef (run es s) =
        drop (length (trailRef s @ leaderPositions es s) - 180)
          (trailRef s @ leaderPositions es s)) \<and>
   (\<not> list_ex isResize es \<and> 180 \<le> length (filter isFrame es) \<longrightarrow>
      length (trailRef (run es s)) = 180 \<and>
      trailRef (run es s) =
        drop (length (leaderPositions es s) - 180) (leaderPositions es s))"
    if bounded: "length (trailRef s) \<le> TRAIL_LIMIT"
  proof -
    have len: "length (trailRef (run es s)) \<le> 180"
      using run_trail_bounded [OF bounded, of es] by (simp add: TRAIL_LIMIT_def)
    have lst: "last (trailRef (step f s)) = aksRef (step f s)"
      by (simp add: step_trailRef pushTrail_last)
    have one: "trailRef (step f s) =
       (if length (trailRef s) < 180 then trailRef s @ [aksRef (step f s)]
        else tl (trailRef s) @ [aksRef (step f s)])"
    proof (cases "length (trailRef s) < 180")
      case True
      then show ?thesis
        by (simp add: step_trailRef [of f s] pushTrail_def Let_def TRAIL_LIMIT_def)
    next
      case False
      with bounded have "length (trailRef s) = 180" by (simp add: TRAIL_LIMIT_def)
      then have "trailRef s \<noteq> []" by auto
      with False show ?thesis
        by (simp add: step_trailRef [of f s] pushTrail_def Let_def TRAIL_LIMIT_def)
    qed
    have keep: "trailRef (run es s) =
          drop (length (trailRef s @ leaderPositions es s) - 180)
            (trailRef s @ leaderPositions es s)" if "\<not> list_ex isResize es"
      using run_trail_keep [OF that bounded] by (simp add: TRAIL_LIMIT_def)
    have full: "length (trailRef (run es s)) = 180 \<and>
        trailRef (run es s) =
          drop (length (leaderPositions es s) - 180) (leaderPositions es s)"
      if "\<not> list_ex isResize es \<and> 180 \<le> length (filter isFrame es)"
    proof -
      from that have many: "180 \<le> length (leaderPositions es s)"
        by (simp add: leaderPositions_length)
      from that have "trailRef (run es s) =
          drop (length (trailRef s @ leaderPositions es s) - 180)
            (trailRef s @ leaderPositions es s)"
        by (simp add: keep)
      with many show ?thesis by simp
    qed
    from len lst one keep full show ?thesis by blast
  qed
  from init rest show ?thesis by blast
qed

theorem trail_keeps_last_180_witness:
  "length (trailRef large_start) \<le> TRAIL_LIMIT \<and>
   \<not> list_ex isResize (replicate 200 (Frame large_frame)) \<and>
   180 \<le> length (filter isFrame (replicate 200 (Frame large_frame))) \<and>
   length (trailRef (run (replicate 200 (Frame large_frame)) large_start)) = 180 \<and>
   trailRef (run (replicate 200 (Frame large_frame)) large_start) =
     replicate 180 \<lparr>x = 650, y = 550\<rparr> \<and>
   trailRef (step large_frame large_start) = [\<lparr>x = 500, y = 600\<rparr>, \<lparr>x = 650, y = 550\<rparr>]"
proof -
  have idle: "leaderPositions (replicate 200 (Frame large_frame)) large_start =
      replicate 200 \<lparr>x = 650, y = 550\<rparr>"
    by (simp add: leaderPositions_idle list_all_iff large_start_fields sumDirections_Nil
        normalize_vec_zero)
  have frames: "filter isFrame (replicate 200 (Frame large_frame)) =
      replicate 200 (Frame large_frame)"
    by simp
  have resizes: "\<not> list_ex isResize (replicate 200 (Frame large_frame))"
    by (simp add: list_ex_iff)
  from trail_keeps_last_180 [of "replicate 200 (Frame large_frame)" large_start large_frame]
  show ?thesis
    by (simp add: idle frames resizes large_start_fields TRAIL_LIMIT_def aksRef_large_step)
qed

section \<open>Follower: the target on the trail\<close>

lemma pushTrail_nonempty: "pushTrail trail p \<noteq> []"
  by (cases trail) (simp_all add: pushTrail_def Let_def TRAIL_LIMIT_def)

lemma followTarget_nth:
  "trail \<noteq> [] \<Longrightarrow> followTarget trail aks = trail ! nat (targetIndex trail)"
  by (cases trail) (auto simp add: followTarget_def targetIndex_def Let_def FOLLOW_DELAY_def)

lemma hd_pushTrail:
  "trail \<noteq> [] \<Longrightarrow> length trail < TRAIL_LIMIT \<Longrightarrow> hd (pushTrail trail p) = hd trail"
  by (simp add: pushTrail_def Let_def)

lemma run_hd_trail:
  assumes "\<not> list_ex isResize es" "trailRef s \<noteq> []"
    and "length (trailRef s) + length (filter isFrame es) \<le> TRAIL_LIMIT"
  shows "hd (trailRef (run es s)) = hd (trailRef s)"
    and "length (trailRef (run es s)) = length (trailRef s) + length (filter isFrame es)"
proof -
  from assms(3) have bounded: "length (trailRef s) \<le> TRAIL_LIMIT" by simp
  from assms(3) have "length (trailRef s @ leaderPositions es s) - TRAIL_LIMIT = 0"
    by (simp add: leaderPositions_length)
  with run_trail_keep [OF assms(1) bounded]
  have all: "trailRef (run es s) = trailRef s @ leaderPositions es s" by simp
  from all assms(2) show "hd (trailRef (run es s)) = hd (trailRef s)" by simp
  from all show "length (trailRef (run es s)) = length (trailRef s) + length (filter isFrame es)"
    by (simp add: leaderPositions_length)
qed

text \<open>
  C1 (amended). On every frame the follower's target index into the trail, as it is after
  the frame's push, is \<open>max(0, trailLength - 1 - 34)\<close>, the target is the trail's sample at
  that index, and the follower eases towards it. When that trail holds at most 35 samples the
  index is 0 and the target is the oldest sample of the trail; for a trail of one to 34
  samples before the frame, that is the sample that was oldest before the frame. So on each
  of the first 34 frames after a reset the target is the point (0.5 w, 0.6 h) with which the
  reset seeds the trail: the follower's own position after the reset.
\<close>

theorem follow_target_oldest:
  "targetIndex (trailRef (step f s)) = max 0 (int (length (trailRef (step f s))) - 1 - 34) \<and>
   followTarget (trailRef (step f s)) (aksRef (step f s)) =
     trailRef (step f s) ! nat (targetIndex (trailRef (step f s))) \<and>
   oliveRef (step f s) =
     moveOlive (oliveRef s) (trailRef (step f s) ! nat (targetIndex (trailRef (step f s))))
       (frameDelta f s) (clientWidth f) (clientHeight f) \<and>
   (length (trailRef (step f s)) \<le> 35 \<longrightarrow>
      targetIndex (trailRef (step f s)) = 0 \<and>
      followTarget (trailRef (step f s)) (aksRef (step f s)) = hd (trailRef (step f s))) \<and>
   (trailRef s \<noteq> [] \<and> length (trailRef s) < 35 \<longrightarrow>
      followTarget (trailRef (step f s)) (aksRef (step f s)) = hd (trailRef s)) \<and>
   (\<not> list_ex isResize es \<and> length (filter isFrame es) < 34 \<longrightarrow>
      followTarget (trailRef (step f (run es (initializePositions w h rnd s0))))
        (aksRef (step f (run es (initializePositions w h rnd s0)))) =
      \<lparr>x = w * 0.5, y = h * 0.6\<rparr>)"
proof -
  have ne: "trailRef (step f s) \<noteq> []" for f s
    by (simp add: step_trailRef pushTrail_nonempty)
  have idx: "targetIndex (trailRef (step f s)) =
      max 0 (int (length (trailRef (step f s))) - 1 - 34)"
    by (simp add: targetIndex_def FOLLOW_DELAY_def)
  have tgt: "followTarget (trailRef (step f s)) (aksRef (step f s)) =
      trailRef (step f s) ! nat (targetIndex (trailRef (step f s)))" for f s
    using ne by (rule followTarget_nth)
  have olive: "oliveRef (step f s) =
     moveOlive (oliveRef s) (trailRef (step f s) ! nat (targetIndex (trailRef (step f s))))
       (frameDelta f s) (clientWidth f) (clientHeight f)"
    using tgt by (simp add: step_oliveRef)
  have short: "targetIndex (trailRef (step f s)) = 0 \<and>
      followTarget (trailRef (step f s)) (aksRef (step f s)) = hd (trailRef (step f s))"
    if "length (trailRef (step f s)) \<le> 35" for f s
  proof -
    from that have "targetIndex (trailRef (step f s)) = 0"
      by (simp add: targetIndex_def FOLLOW_DELAY_def)
    with tgt [of f s] ne [of f s] show ?thesis by (simp add: hd_conv_nth)
  qed
  have before: "followTarget (trailRef (step f s)) (aksRef (step f s)) = hd (trailRef s)"
    if "trailRef s \<noteq> [] \<and> length (trailRef s) < 35" for f s
  proof -
    from that have len: "length (trailRef (step f s)) \<le> 35"
      by (simp add: step_trailRef pushTrail_def Let_def TRAIL_LIMIT_def)
    from that have "hd (trailRef (step f s)) = hd (trailRef s)"
      by (simp add: step_trailRef hd_pushTrail TRAIL_LIMIT_def)
    with short [OF len] show ?thesis by simp
  qed
  have reset: "followTarget (trailRef (step f (run es (initializePositions w h rnd s0))))
        (aksRef (step f (run es (initializePositions w h rnd s0)))) =
      \<lparr>x = w * 0.5, y = h * 0.6\<rparr>"
    if "\<not> list_ex isResize es \<and> length (filter isFrame es) < 34"
  proof -
    let ?r = "initializePositions w h rnd s0"
    have seed: "trailRef ?r = [\<lparr>x = w * 0.5, y = h * 0.6\<rparr>]"
      by (simp add: initializePositions_def)
    from that have room: "length (trailRef ?r) + length (filter isFrame es) \<le> TRAIL_LIMIT"
      by (simp add: seed TRAIL_LIMIT_def)
    from that have nores: "\<not> list_ex isResize es" by simp
    from seed have nonempty: "trailRef ?r \<noteq> []" by simp
    have hd: "hd (trailRef (run es ?r)) = \<lparr>x = w * 0.5, y = h * 0.6\<rparr>"
      using run_hd_trail(1) [OF nores nonempty room] by (simp add: seed)
    have "length (trailRef (run es ?r)) = 1 + length (filter isFrame es)"
      using run_hd_trail(2) [OF nores nonempty room] by (simp add: seed)
    with that have "trailRef (run es ?r) \<noteq> [] \<and> length (trailRef (run es ?r)) < 35"
      by auto
    from before [OF this] hd show ?thesis by simp
  qed
  from idx tgt olive short before reset show ?thesis by blast
qed

theorem follow_target_oldest_witness:
  "length (trailRef (step large_frame large_start)) \<le> 35 \<and>
   trailRef large_start \<noteq> [] \<and> length (trailRef large_start) < 35 \<and>
   followTarget (trailRef (step large_frame large_start)) (aksRef (step large_frame large_start))
     = \<lparr>x = 500, y = 600\<rparr> \<and>
   \<not> list_ex isResize [Frame large_frame] \<and> length (filter isFrame [Frame large_frame]) < 34 \<and>
   followTarget
     (trailRef (step large_frame
        (run [Frame large_frame] (initializePositions 1000 1000 halfDraws initialGame))))
     (aksRef (step large_frame
        (run [Frame large_frame] (initializePositions 1000 1000 halfDraws initialGame))))
     = \<lparr>x = 500, y = 600\<rparr>"
  using follow_target_oldest [of large_frame large_start "[Frame large_frame]" 1000 1000
      halfDraws initialGame]
  by (simp add: trailRef_large_step large_start_fields)

text \<open>C1 as stated has the follower target the leader's current position while the trail
  is short. On the first frame after mounting on a 1000 by 1000 canvas the target is the
  trail's first sample (500, 600), the follower's own starting point, and the leader is at
  (650, 550).\<close>

theorem follow_target_counterexample:
  "length (trailRef (step large_frame large_start)) < 35 \<and>
   followTarget (trailRef (step large_frame large_start)) (aksRef (step large_frame large_start))
     \<noteq> aksRef (step large_frame large_start)"
  by (simp add: trailRef_large_step aksRef_large_step followTarget_def targetIndex_def
      FOLLOW_DELAY_def)

section \<open>Session metrics: throttled publication\<close>

lemma handleKey_lastUiUpdate:
  "lastUiUpdate (handleKeyDown k s) = lastUiUpdate s"
  "lastUiUpdate (handleKeyUp k s) = lastUiUpdate s"
  by (simp_all add: handleKeyDown_def handleKeyUp_def Let_def)

lemma exec_lastUiUpdate:
  "lastUiUpdate (exec e s) = last (lastUiUpdate s # published e s)"
  by (cases e)
     (simp_all add: handleKey_lastUiUpdate initializePositions_def step_lastUiUpdate)

lemma published_gap:
  "published e s = [] \<or> (\<exists>t. published e s = [t] \<and> lastUiUpdate s + UI_INTERVAL \<le> t)"
  by (cases e) (auto simp add: publishes_def)

lemma publications_spaced:
  "sorted_wrt (\<lambda>a b. a + UI_INTERVAL \<le> b) (lastUiUpdate s # publications es s)"
proof (induction es arbitrary: s)
  case Nil
  show ?case by simp
next
  case (Cons e es)
  let ?s = "exec e s"
  have IH: "sorted_wrt (\<lambda>a b. a + UI_INTERVAL \<le> b) (lastUiUpdate ?s # publications es ?s)"
    by (rule Cons.IH)
  from published_gap [of e s] show ?case
  proof
    assume none: "published e s = []"
    then have "lastUiUpdate ?s = lastUiUpdate s" by (simp add: exec_lastUiUpdate)
    with IH none show ?thesis by simp
  next
    assume "\<exists>t. published e s = [t] \<and> lastUiUpdate s + UI_INTERVAL \<le> t"
    then obtain t where t: "published e s = [t]" and gap: "lastUiUpdate s + UI_INTERVAL \<le> t"
      by blast
    from t have last: "lastUiUpdate ?s = t" by (simp add: exec_lastUiUpdate)
    from IH last have later: "\<forall>u \<in> set (publications es ?s). t + UI_INTERVAL \<le> u"
      and sorted: "sorted_wrt (\<lambda>a b. a + UI_INTERVAL \<le> b) (publications es ?s)"
      by simp_all
    from later gap have "\<forall>u \<in> set (publications es ?s). lastUiUpdate s + UI_INTERVAL \<le> u"
      by (auto simp add: UI_INTERVAL_def)
    with later sorted gap t show ?thesis by simp
  qed
qed

lemma spaced_span:
  "sorted_wrt (\<lambda>a b. a + d \<le> b) (t # ts) \<Longrightarrow> t + d * real (length ts) \<le> last (t # ts)"
proof (induction ts arbitrary: t)
  case Nil
  show ?case by simp
next
  case (Cons u ts)
  from Cons.prems have "t + d \<le> u" and "sorted_wrt (\<lambda>a b. a + d \<le> b) (u # ts)"
    by simp_all
  with Cons.IH [of u] show ?case
    by (simp add: algebra_simps)
qed

lemma spaced_count:
  assumes sorted: "sorted_wrt (\<lambda>a b. a + d \<le> b) ts"
    and window: "\<forall>t \<in> set ts. a \<le> t \<and> t \<le> a + w"
    and "ts \<noteq> []"
  shows "d * (real (length ts) - 1) \<le> w"
proof -
  from \<open>ts \<noteq> []\<close> obtain t ts' where ts: "ts = t # ts'" by (cases ts) auto
  from sorted have "t + d * real (length ts') \<le> last (t # ts')"
    unfolding ts by (rule spaced_span)
  moreover from window have "a \<le> t" by (simp add: ts)
  moreover from window have "last (t # ts') \<le> a + w"
    using last_in_set [of "t # ts'"] by (simp only: ts) blast
  ultimately show ?thesis by (simp add: ts)
qed

lemma publications_sorted:
  "sorted_wrt (\<lambda>a b. a + UI_INTERVAL \<le> b) (publications es s)"
  using publications_spaced [of s es] by simp

text \<open>
  C9. A frame whose wall-clock time is less than 120 ms after the last publication publishes
  nothing: the published metrics and the time of the last publication stay as they are.
  Over any run, at any frame rate, the publications are at least 120 ms apart from one
  another and from the last publication before the run; so publications that fall into a
  window of w ms number at most w / 120 + 1, and at most 5 in a window of 500 ms.
\<close>

theorem publication_throttled:
  "(now f - lastUiUpdate s < 120 \<longrightarrow>
      published (Frame f) s = [] \<and> uiState (step f s) = uiState s \<and>
      lastUiUpdate (step f s) = lastUiUpdate s) \<and>
   sorted_wrt (\<lambda>a b. a + 120 \<le> b) (lastUiUpdate s # publications es s) \<and>
   ((\<forall>t \<in> set (publications es s). a \<le> t \<and> t \<le> a + w) \<longrightarrow> publications es s \<noteq> [] \<longrightarrow>
      120 * (real (length (publications es s)) - 1) \<le> w) \<and>
   ((\<forall>t \<in> set (publications es s). a \<le> t \<and> t \<le> a + 500) \<longrightarrow>
      length (publications es s) \<le> 5)"
proof -
  have quiet: "published (Frame f) s = [] \<and> uiState (step f s) = uiState s \<and>
      lastUiUpdate (step f s) = lastUiUpdate s" if "now f - lastUiUpdate s < 120"
    using that by (simp add: step_uiState step_lastUiUpdate publishes_def UI_INTERVAL_def)
  have spaced: "sorted_wrt (\<lambda>a b. a + 120 \<le> b) (lastUiUpdate s # publications es s)"
    using publications_spaced [of s es] by (simp only: UI_INTERVAL_def)
  have span: "120 * (real (length (publications es s)) - 1) \<le> v"
    if "\<forall>t \<in> set (publications es s). a \<le> t \<and> t \<le> a + v" "publications es s \<noteq> []" for v
    using spaced_count [OF publications_sorted that] by (simp only: UI_INTERVAL_def)
  have five: "length (publications es s) \<le> 5"
    if window: "\<forall>t \<in> set (publications es s). a \<le> t \<and> t \<le> a + 500"
  proof (cases "publications es s = []")
    case True
    then show ?thesis by simp
  next
    case False
    with window have "120 * (real (length (publications es s)) - 1) \<le> 500" by (rule span)
    then have "real (length (publications es s)) < 6" by simp
    then show ?thesis by simp
  qed
  from quiet spaced span five show ?thesis by blast
qed

lemma frame_at_fields: "now (frame_at t) = t"
  by (simp add: frame_at_def)

lemma lastUiUpdate_large_start: "lastUiUpdate large_start = 0"
  by (simp add: large_start_def initializePositions_def initialGame_def)

theorem publication_throttled_witness:
  "lastUiUpdate (step (frame_at 130) large_start) = 130 \<and>
   now (frame_at 200) - lastUiUpdate (step (frame_at 130) large_start) < 120 \<and>
   uiState (step (frame_at 200) (step (frame_at 130) large_start)) =
     uiState (step (frame_at 130) large_start) \<and>
   publications [Frame (frame_at 130), Frame (frame_at 200), Frame (frame_at 250),
     Frame (frame_at 300)] large_start = [130, 250] \<and>
   list_all (\<lambda>t. 0 \<le> t \<and> t \<le> 0 + 500)
     (publications [Frame (frame_at 130), Frame (frame_at 200), Frame (frame_at 250),
        Frame (frame_at 300)] large_start) \<and>
   length (publications [Frame (frame_at 130), Frame (frame_at 200), Frame (frame_at 250),
     Frame (frame_at 300)] large_start) \<le> 5"
  using publication_throttled [of "frame_at 200" "step (frame_at 130) large_start"
      "[Frame (frame_at 130), Frame (frame_at 200), Frame (frame_at 250),
        Frame (frame_at 300)]" 0 500]
    publication_throttled [of "frame_at 200" large_start
      "[Frame (frame_at 130), Frame (frame_at 200), Frame (frame_at 250),
        Frame (frame_at 300)]" 0 500]
  by (simp add: step_lastUiUpdate publishes_def UI_INTERVAL_def frame_at_fields
      lastUiUpdate_large_start)

section \<open>Input sampling\<close>

lemma addDirection_NaNs: "addDirection NaNs p = NaNs"
  by (cases p) simp_all

lemma fold_NaNs:
  "fold (\<lambda>key inputVector. addDirection inputVector (KEY_DIRECTIONS key)) keys NaNs = NaNs"
  by (induction keys) (simp_all add: addDirection_NaNs)

lemma fold_inherited:
  "\<exists>k \<in> set keys. KEY_DIRECTIONS k = Inherited \<Longrightarrow>
   fold (\<lambda>key inputVector. addDirection inputVector (KEY_DIRECTIONS key)) keys acc = NaNs"
proof (induction keys arbitrary: acc)
  case Nil
  then show ?case by simp
next
  case (Cons k keys)
  show ?case
  proof (cases "KEY_DIRECTIONS k = Inherited")
    case True
    then show ?thesis by (simp add: fold_NaNs)
  next
    case False
    with Cons.prems have "\<exists>k \<in> set keys. KEY_DIRECTIONS k = Inherited" by simp
    then show ?thesis by (simp add: Cons.IH)
  qed
qed

lemma fold_directions:
  "\<forall>k \<in> set keys. KEY_DIRECTIONS k \<noteq> Inherited \<Longrightarrow>
   fold (\<lambda>key inputVector. addDirection inputVector (KEY_DIRECTIONS key)) keys (Numbers acc) =
   Numbers
     \<lparr>x = x acc + (\<Sum>k\<leftarrow>keys. case KEY_DIRECTIONS k of Direction d \<Rightarrow> x d | _ \<Rightarrow> 0),
      y = y acc + (\<Sum>k\<leftarrow>keys. case KEY_DIRECTIONS k of Direction d \<Rightarrow> y d | _ \<Rightarrow> 0)\<rparr>"
proof (induction keys arbitrary: acc)
  case Nil
  show ?case by simp
next
  case (Cons k keys)
  then show ?case
    by (cases "KEY_DIRECTIONS k") (simp_all add: add.assoc)
qed

lemma sumDirections_sum:
  "\<forall>k \<in> set keys. KEY_DIRECTIONS k \<noteq> Inherited \<Longrightarrow>
   sumDirections keys =
   Numbers
     \<lparr>x = (\<Sum>k\<leftarrow>keys. case KEY_DIRECTIONS k of Direction d \<Rightarrow> x d | _ \<Rightarrow> 0),
      y = (\<Sum>k\<leftarrow>keys. case KEY_DIRECTIONS k of Direction d \<Rightarrow> y d | _ \<Rightarrow> 0)\<rparr>"
  by (simp add: sumDirections_def fold_directions)

lemma sumDirections_inherited:
  "\<exists>k \<in> set keys. KEY_DIRECTIONS k = Inherited \<Longrightarrow> sumDirections keys = NaNs"
  by (simp add: sumDirections_def fold_inherited)

lemma KEY_DIRECTIONS_range:
  "KEY_DIRECTIONS k = Undefined \<or> KEY_DIRECTIONS k = Inherited \<or>
   KEY_DIRECTIONS k = Direction \<lparr>x = 0, y = -1\<rparr> \<or>
   KEY_DIRECTIONS k = Direction \<lparr>x = 0, y = 1\<rparr> \<or>
   KEY_DIRECTIONS k = Direction \<lparr>x = -1, y = 0\<rparr> \<or>
   KEY_DIRECTIONS k = Direction \<lparr>x = 1, y = 0\<rparr>"
  by (simp add: KEY_DIRECTIONS_def)

lemma sum_x_counts:
  "(\<Sum>k\<leftarrow>keys. case KEY_DIRECTIONS k of Direction d \<Rightarrow> x d | _ \<Rightarrow> 0) =
     real (count_list (map KEY_DIRECTIONS keys) (Direction \<lparr>x = 1, y = 0\<rparr>))
     - real (count_list (map KEY_DIRECTIONS keys) (Direction \<lparr>x = -1, y = 0\<rparr>))"
proof (induction keys)
  case Nil
  show ?case by simp
next
  case (Cons k keys)
  from KEY_DIRECTIONS_range [of k] Cons.IH show ?case
    by (elim disjE) simp_all
qed

lemma sum_y_counts:
  "(\<Sum>k\<leftarrow>keys. case KEY_DIRECTIONS k of Direction d \<Rightarrow> y d | _ \<Rightarrow> 0) =
     real (count_list (map KEY_DIRECTIONS keys) (Direction \<lparr>x = 0, y = 1\<rparr>))
     - real (count_list (map KEY_DIRECTIONS keys) (Direction \<lparr>x = 0, y = -1\<rparr>))"
proof (induction keys)
  case Nil
  show ?case by simp
next
  case (Cons k keys)
  from KEY_DIRECTIONS_range [of k] Cons.IH show ?case
    by (elim disjE) simp_all
qed

lemma length_vec_eq_0: "length_vec v = 0 \<longleftrightarrow> v = \<lparr>x = 0, y = 0\<rparr>"
proof (cases v)
  case (fields a b)
  have "sqrt (a\<^sup>2 + b\<^sup>2) = 0 \<longleftrightarrow> a = 0 \<and> b = 0"
    by (simp add: sum_power2_eq_zero_iff)
  with fields show ?thesis by (simp add: length_vec_def)
qed

lemma normalize_vec_Numbers:
  "normalize_vec (Numbers v) =
     (if v = \<lparr>x = 0, y = 0\<rparr> then \<lparr>x = 0, y = 0\<rparr>
      else \<lparr>x = x v / sqrt ((x v)\<^sup>2 + (y v)\<^sup>2), y = y v / sqrt ((x v)\<^sup>2 + (y v)\<^sup>2)\<rparr>)"
proof (cases "v = \<lparr>x = 0, y = 0\<rparr>")
  case True
  then show ?thesis by (simp add: normalize_vec_def length_vec_def)
next
  case False
  then have "length_vec v \<noteq> 0" by (simp add: length_vec_eq_0)
  with False show ?thesis by (simp add: normalize_vec_def Let_def) (simp add: length_vec_def)
qed

lemma unit_after_scaling:
  fixes a b :: real
  assumes "a \<noteq> 0 \<or> b \<noteq> 0"
  shows "(a / sqrt (a\<^sup>2 + b\<^sup>2))\<^sup>2 + (b / sqrt (a\<^sup>2 + b\<^sup>2))\<^sup>2 = 1"
proof -
  let ?n = "a\<^sup>2 + b\<^sup>2"
  from assms have pos: "?n \<noteq> 0" by (auto simp add: sum_power2_eq_zero_iff)
  have sq: "(sqrt ?n)\<^sup>2 = ?n" by simp
  have "(a / sqrt ?n)\<^sup>2 + (b / sqrt ?n)\<^sup>2 = ?n / (sqrt ?n)\<^sup>2"
    by (simp only: power_divide add_divide_distrib)
  also have "\<dots> = ?n / ?n" by (simp only: sq)
  also from pos have "\<dots> = 1" by (rule divide_self)
  finally show ?thesis .
qed

lemma sumDirections_counts:
  "\<forall>k \<in> set keys. KEY_DIRECTIONS k \<noteq> Inherited \<Longrightarrow>
   sumDirections keys =
   Numbers
     \<lparr>x = real (count_list (map KEY_DIRECTIONS keys) (Direction \<lparr>x = 1, y = 0\<rparr>))
          - real (count_list (map KEY_DIRECTIONS keys) (Direction \<lparr>x = -1, y = 0\<rparr>)),
      y = real (count_list (map KEY_DIRECTIONS keys) (Direction \<lparr>x = 0, y = 1\<rparr>))
          - real (count_list (map KEY_DIRECTIONS keys) (Direction \<lparr>x = 0, y = -1\<rparr>))\<rparr>"
  by (simp add: sumDirections_sum sum_x_counts sum_y_counts)

text \<open>
  As long as every pressed key is one of the eight direction keys (or at least none is an
  inherited name), the frame works with the sum of their directions scaled to length 1: the
  leader moves by it and faces along it. With a zero sum, as for no key or for as many keys
  to the left as to the right and as many up as down, the leader stays.
\<close>

lemma direction_keys_input:
  assumes "\<forall>k \<in> set (pressedKeysRef s). KEY_DIRECTIONS k \<noteq> Inherited"
  obtains v where
    "v = \<lparr>x = (\<Sum>k\<leftarrow>pressedKeysRef s. case KEY_DIRECTIONS k of Direction d \<Rightarrow> x d | _ \<Rightarrow> 0),
          y = (\<Sum>k\<leftarrow>pressedKeysRef s. case KEY_DIRECTIONS k of Direction d \<Rightarrow> y d | _ \<Rightarrow> 0)\<rparr>"
    "sumDirections (pressedKeysRef s) = Numbers v"
    "v = \<lparr>x = 0, y = 0\<rparr> \<Longrightarrow>
       normalize_vec (sumDirections (pressedKeysRef s)) = \<lparr>x = 0, y = 0\<rparr> \<and>
       aksRef (step f s) = aksRef s \<and> aksDirectionRef (step f s) = aksDirectionRef s"
    "v \<noteq> \<lparr>x = 0, y = 0\<rparr> \<Longrightarrow>
       normalize_vec (sumDirections (pressedKeysRef s)) =
         \<lparr>x = x v / sqrt ((x v)\<^sup>2 + (y v)\<^sup>2), y = y v / sqrt ((x v)\<^sup>2 + (y v)\<^sup>2)\<rparr> \<and>
       (x (normalize_vec (sumDirections (pressedKeysRef s))))\<^sup>2
         + (y (normalize_vec (sumDirections (pressedKeysRef s))))\<^sup>2 = 1 \<and>
       aksDirectionRef (step f s) =
         \<lparr>x = x v / sqrt ((x v)\<^sup>2 + (y v)\<^sup>2), y = y v / sqrt ((x v)\<^sup>2 + (y v)\<^sup>2)\<rparr> \<and>
       aksRef (step f s) =
         \<lparr>x = clamp (x (aksRef s) + x v / sqrt ((x v)\<^sup>2 + (y v)\<^sup>2) * 280 * frameDelta f s)
                EDGE_PADDING (clientWidth f - EDGE_PADDING),
          y = clamp (y (aksRef s) + y v / sqrt ((x v)\<^sup>2 + (y v)\<^sup>2) * 280 * frameDelta f s)
                EDGE_PADDING (clientHeight f - EDGE_PADDING)\<rparr>"
proof -
  let ?v = "\<lparr>x = (\<Sum>k\<leftarrow>pressedKeysRef s. case KEY_DIRECTIONS k of Direction d \<Rightarrow> x d | _ \<Rightarrow> 0),
          y = (\<Sum>k\<leftarrow>pressedKeysRef s. case KEY_DIRECTIONS k of Direction d \<Rightarrow> y d | _ \<Rightarrow> 0)\<rparr>"
  have sum: "sumDirections (pressedKeysRef s) = Numbers ?v"
    using assms by (rule sumDirections_sum)
  have zero: "normalize_vec (sumDirections (pressedKeysRef s)) = \<lparr>x = 0, y = 0\<rparr> \<and>
       aksRef (step f s) = aksRef s \<and> aksDirectionRef (step f s) = aksDirectionRef s"
    if "?v = \<lparr>x = 0, y = 0\<rparr>"
  proof -
    from that have "normalize_vec (sumDirections (pressedKeysRef s)) = \<lparr>x = 0, y = 0\<rparr>"
      by (simp add: sum normalize_vec_Numbers)
    then show ?thesis by (simp add: step_idle)
  qed
  have moving: "normalize_vec (sumDirections (pressedKeysRef s)) =
         \<lparr>x = x ?v / sqrt ((x ?v)\<^sup>2 + (y ?v)\<^sup>2), y = y ?v / sqrt ((x ?v)\<^sup>2 + (y ?v)\<^sup>2)\<rparr> \<and>
       (x (normalize_vec (sumDirections (pressedKeysRef s))))\<^sup>2
         + (y (normalize_vec (sumDirections (pressedKeysRef s))))\<^sup>2 = 1 \<and>
       aksDirectionRef (step f s) =
         \<lparr>x = x ?v / sqrt ((x ?v)\<^sup>2 + (y ?v)\<^sup>2), y = y ?v / sqrt ((x ?v)\<^sup>2 + (y ?v)\<^sup>2)\<rparr> \<and>
       aksRef (step f s) =
         \<lparr>x = clamp (x (aksRef s) + x ?v / sqrt ((x ?v)\<^sup>2 + (y ?v)\<^sup>2) * 280 * frameDelta f s)
                EDGE_PADDING (clientWidth f - EDGE_PADDING),
          y = clamp (y (aksRef s) + y ?v / sqrt ((x ?v)\<^sup>2 + (y ?v)\<^sup>2) * 280 * frameDelta f s)
                EDGE_PADDING (clientHeight f - EDGE_PADDING)\<rparr>"
    if nz: "?v \<noteq> \<lparr>x = 0, y = 0\<rparr>"
  proof -
    let ?n = "\<lparr>x = x ?v / sqrt ((x ?v)\<^sup>2 + (y ?v)\<^sup>2), y = y ?v / sqrt ((x ?v)\<^sup>2 + (y ?v)\<^sup>2)\<rparr>"
    from nz have n: "normalize_vec (sumDirections (pressedKeysRef s)) = ?n"
      by (simp add: sum normalize_vec_Numbers)
    from nz have comps: "x ?v \<noteq> 0 \<or> y ?v \<noteq> 0" by simp
    have unit: "(x ?n)\<^sup>2 + (y ?n)\<^sup>2 = 1"
      using unit_after_scaling [OF comps] by simp
    then have truthy: "truthyVec ?n"
      by (auto simp add: truthyVec_def)
    have dir: "aksDirectionRef (step f s) = ?n"
      using truthy by (simp only: step_aksDirectionRef n if_True)
    have pos: "aksRef (step f s) =
         \<lparr>x = clamp (x (aksRef s) + x ?n * 280 * frameDelta f s)
                EDGE_PADDING (clientWidth f - EDGE_PADDING),
          y = clamp (y (aksRef s) + y ?n * 280 * frameDelta f s)
                EDGE_PADDING (clientHeight f - EDGE_PADDING)\<rparr>"
      using truthy by (simp only: step_aksRef n moveAks_def if_True SPEED_def)
    from n unit dir pos show ?thesis by (simp only: n) simp
  qed
  from sum zero moving show thesis by (rule that [OF refl])
qed












end
